theory Spec2Isabelle
  imports Complex_Main "HOL-Library.Log_Nat"
begin

section \<open>OrientPy: complementary filter and orientation processor\<close>

text \<open>
  A shallow embedding of \<^verbatim>\<open>src/filter.py\<close> (class \<^verbatim>\<open>ComplementaryFilter\<close>) and
  \<^verbatim>\<open>src/processor.py\<close> (class \<^verbatim>\<open>OrientProcessor\<close>).

  Conventions of the embedding.
  \<^item> A method of an object is a function of the object's state that returns its result
    together with the state after the call; a method that can raise returns
    \<open>py_error + (result \<times> state)\<close>, with \<open>Inl\<close> the exception.
  \<^item> A sensor reading is the dict \<^verbatim>\<open>{'x': .., 'y': .., 'z': ..}\<close>; the embedding takes
    it as the triple \<open>Vec3 x y z\<close>, so only dicts that carry the three keys are inputs.
  \<^item> Python floats are real numbers here: the arithmetic of the filter is exact. Rounding
    is written out in one place, the averaging of \<^verbatim>\<open>calibrate_gyro\<close>, which takes the
    rounding function applied after each floating-point operation as a parameter (the
    identity for exact arithmetic), and which \<open>calibrate_gyro_binary64\<close> runs in the
    arithmetic of IEEE doubles, overflow included.
  \<^item> Every reading of the clock \<^verbatim>\<open>utime.ticks_ms()\<close> is an argument of the function
    that reads it, in the order of the reads.
\<close>

subsection \<open>Values and exceptions\<close>

datatype vec3 = Vec3 (vx: real) (vy: real) (vz: real)

datatype py_error = ZeroDivisionError | AttributeError | ValueError

subsection \<open>The library functions the code calls\<close>

text \<open>
  \<^verbatim>\<open>utime.ticks_diff\<close> of MicroPython: the difference of two tick counts modulo the
  period of the counter, read as a signed number in \<open>[-TICKS_PERIOD/2, TICKS_PERIOD/2)\<close>.
  The period is \<open>2^30\<close> on the 32-bit ports.
\<close>

definition TICKS_PERIOD :: int where
  "TICKS_PERIOD = 2 ^ 30"

definition ticks_diff :: "int \<Rightarrow> int \<Rightarrow> int" where
  "ticks_diff ticks1 ticks2 =
     (ticks1 - ticks2 + TICKS_PERIOD div 2) mod TICKS_PERIOD - TICKS_PERIOD div 2"

text \<open>\<^verbatim>\<open>utime.ticks_add\<close>: a tick count moved by a number of ticks, wrapped.\<close>

definition ticks_add :: "int \<Rightarrow> int \<Rightarrow> int" where
  "ticks_add ticks delta = (ticks + delta) mod TICKS_PERIOD"

text \<open>\<^verbatim>\<open>math.sqrt\<close> raises \<^verbatim>\<open>ValueError\<close> on a negative argument.\<close>

definition py_sqrt :: "real \<Rightarrow> py_error + real" where
  "py_sqrt v = (if v < 0 then Inl ValueError else Inr (sqrt v))"

text \<open>
  \<^verbatim>\<open>math.atan2(y, x)\<close>: the angle of the point \<open>(x, y)\<close>, total on the reals (it does
  not raise when \<open>x\<close> is zero).
\<close>

definition atan2 :: "real \<Rightarrow> real \<Rightarrow> real" where
  "atan2 b a =
     (if 0 < a then arctan (b / a)
      else if a < 0 then (if 0 \<le> b then arctan (b / a) + pi else arctan (b / a) - pi)
      else if 0 < b then pi / 2
      else if b < 0 then - (pi / 2)
      else 0)"

text \<open>\<^verbatim>\<open>math.degrees\<close>.\<close>

definition degrees :: "real \<Rightarrow> real" where
  "degrees r = r * (180 / pi)"

subsection \<open>filter.py: ComplementaryFilter\<close>

text \<open>
  The attributes of the object. The two weights are set by \<^verbatim>\<open>set_weights\<close> only, which
  the constructor calls without looking at its result: after a constructor call with a
  weight out of range the attributes do not exist (\<open>None\<close>), and reading them raises
  \<^verbatim>\<open>AttributeError\<close>.
\<close>

record ComplementaryFilter =
  update_rate :: int
  pitch_weight :: "real option"
  roll_weight :: "real option"
  pitch :: real
  roll :: real
  last_update :: int
  dt :: real

text \<open>The test \<^verbatim>\<open>0 <= w <= 1\<close>.\<close>

definition in_unit :: "real \<Rightarrow> bool" where
  "in_unit w = (0 \<le> w \<and> w \<le> 1)"

text \<open>
  \<^verbatim>\<open>set_weights(gyro_weight=None, pitch_weight=None, roll_weight=None)\<close>: three blocks
  run in order, each returning \<^verbatim>\<open>False\<close> at a value out of range, after the blocks
  before it have stored theirs.
\<close>

definition set_weights ::
  "real option \<Rightarrow> real option \<Rightarrow> real option \<Rightarrow> ComplementaryFilter
     \<Rightarrow> bool \<times> ComplementaryFilter" where
  "set_weights gyro_weight p_weight r_weight f =
     (case (case gyro_weight of
              None \<Rightarrow> Some f
            | Some g \<Rightarrow>
                if \<not> in_unit g then None
                else Some (f\<lparr>pitch_weight := Some g, roll_weight := Some g\<rparr>)) of
        None \<Rightarrow> (False, f)
      | Some f1 \<Rightarrow>
          (case p_weight of
             None \<Rightarrow>
               (case r_weight of
                  None \<Rightarrow> (True, f1)
                | Some r \<Rightarrow>
                    if \<not> in_unit r then (False, f1)
                    else (True, f1\<lparr>roll_weight := Some r\<rparr>))
           | Some p \<Rightarrow>
               if \<not> in_unit p then (False, f1)
               else
                 (case r_weight of
                    None \<Rightarrow> (True, f1\<lparr>pitch_weight := Some p\<rparr>)
                  | Some r \<Rightarrow>
                      if \<not> in_unit r then (False, f1\<lparr>pitch_weight := Some p\<rparr>)
                      else (True, f1\<lparr>pitch_weight := Some p, roll_weight := Some r\<rparr>))))"

text \<open>
  \<^verbatim>\<open>__init__(update_rate=100, gyro_weight=0.95)\<close>, with the reading \<open>now\<close> of the clock.
  The division \<^verbatim>\<open>1.0 / update_rate\<close> raises at rate zero.
\<close>

definition filter_init :: "int \<Rightarrow> real \<Rightarrow> int \<Rightarrow> py_error + ComplementaryFilter" where
  "filter_init rate gyro_weight now =
     (let f0 = \<lparr>update_rate = rate, pitch_weight = None, roll_weight = None,
                pitch = 0, roll = 0, last_update = 0, dt = 0\<rparr>;
          f1 = snd (set_weights (Some gyro_weight) None None f0);
          f2 = f1\<lparr>pitch := 0, roll := 0, last_update := now\<rparr>
      in if rate = 0 then Inl ZeroDivisionError
         else Inr (f2\<lparr>dt := 1 / real_of_int rate\<rparr>))"

text \<open>
  The guard of \<^verbatim>\<open>_get_accel_pitch\<close> and \<^verbatim>\<open>_get_accel_roll\<close> on the denominator:
  \<^verbatim>\<open>if abs(denominator) < epsilon: denominator = epsilon if denominator >= 0 else -epsilon\<close>.
\<close>

definition epsilon :: real where
  "epsilon = 1 / 10 ^ 10"

definition clamp_denominator :: "real \<Rightarrow> real" where
  "clamp_denominator denominator =
     (if \<bar>denominator\<bar> < epsilon
      then (if 0 \<le> denominator then epsilon else - epsilon)
      else denominator)"

definition get_accel_pitch :: "vec3 \<Rightarrow> py_error + real" where
  "get_accel_pitch accel =
     (case py_sqrt ((vy accel)\<^sup>2 + (vz accel)\<^sup>2) of
        Inl e \<Rightarrow> Inl e
      | Inr denominator \<Rightarrow> Inr (atan2 (- vx accel) (clamp_denominator denominator)))"

definition get_accel_roll :: "vec3 \<Rightarrow> py_error + real" where
  "get_accel_roll accel =
     (case py_sqrt ((vx accel)\<^sup>2 + (vz accel)\<^sup>2) of
        Inl e \<Rightarrow> Inl e
      | Inr denominator \<Rightarrow> Inr (atan2 (vy accel) (clamp_denominator denominator)))"

text \<open>\<^verbatim>\<open>get_angles(in_degrees=False)\<close>: the pair of the dict's \<^verbatim>\<open>'pitch'\<close> and \<^verbatim>\<open>'roll'\<close>.\<close>

definition get_angles :: "bool \<Rightarrow> ComplementaryFilter \<Rightarrow> (real \<times> real) \<times> ComplementaryFilter" where
  "get_angles in_degrees f =
     (if in_degrees then ((degrees (pitch f), degrees (roll f)), f)
      else ((pitch f, roll f), f))"

text \<open>
  \<^verbatim>\<open>update(accel, gyro, dt=None)\<close>, with the reading \<open>now\<close> of the clock. The test
  \<^verbatim>\<open>dt <= 0\<close> stands inside the branch \<^verbatim>\<open>dt is None\<close>, and the value it substitutes is
  the attribute \<^verbatim>\<open>self.dt\<close>, which every call overwrites with the delta it used.
\<close>

definition filter_update ::
  "vec3 \<Rightarrow> vec3 \<Rightarrow> real option \<Rightarrow> int \<Rightarrow> ComplementaryFilter
     \<Rightarrow> py_error + ((real \<times> real) \<times> ComplementaryFilter)" where
  "filter_update accel gyro dt_arg now f =
     (let delta =
            (case dt_arg of
               None \<Rightarrow>
                 (let computed = real_of_int (ticks_diff now (last_update f)) / 1000
                  in if computed \<le> 0 then dt f else computed)
             | Some d \<Rightarrow> d);
          f1 = f\<lparr>last_update := now, dt := delta\<rparr>
      in case get_accel_pitch accel of
           Inl e \<Rightarrow> Inl e
         | Inr accel_pitch \<Rightarrow>
             (case get_accel_roll accel of
                Inl e \<Rightarrow> Inl e
              | Inr accel_roll \<Rightarrow>
                  (case pitch_weight f1 of
                     None \<Rightarrow> Inl AttributeError
                   | Some pw \<Rightarrow>
                       (let f2 = f1\<lparr>pitch := pw * (pitch f1 + vy gyro * delta)
                                                + (1 - pw) * accel_pitch\<rparr>
                        in case roll_weight f2 of
                             None \<Rightarrow> Inl AttributeError
                           | Some rw \<Rightarrow>
                               Inr (get_angles False
                                 (f2\<lparr>roll := rw * (roll f2 + vx gyro * delta)
                                               + (1 - rw) * accel_roll\<rparr>))))))"

text \<open>\<^verbatim>\<open>reset()\<close>, with the reading \<open>now\<close> of the clock.\<close>

definition reset :: "int \<Rightarrow> ComplementaryFilter \<Rightarrow> unit \<times> ComplementaryFilter" where
  "reset now f = ((), f\<lparr>pitch := 0, roll := 0, last_update := now\<rparr>)"

subsection \<open>Floating-point rounding\<close>

text \<open>
  The rounding of IEEE 754 binary64 (Python's \<^verbatim>\<open>float\<close>), to nearest with ties to even.
  \<open>binary64_nearest\<close> rounds a real to a multiple of \<open>2^e\<close>, where \<open>e\<close> is the exponent
  of the unit in the last place of its binade (53 significant bits, and \<open>e = -1074\<close> in
  the subnormal range); it is the rounding with no bound on the exponent from above.
  \<open>round_binary64\<close> is the rounding of an operation's exact result as the machine does
  it: the result overflows to an infinity, which is no real number (\<open>None\<close>), exactly
  when the value rounded without that bound reaches \<open>2^1024\<close>.
\<close>

definition round_half_even :: "real \<Rightarrow> int" where
  "round_half_even r =
     (let f = \<lfloor>r\<rfloor>; d = r - of_int f
      in if d < 1 / 2 then f else if 1 / 2 < d then f + 1 else if even f then f else f + 1)"

definition binary64_exponent :: "real \<Rightarrow> int" where
  "binary64_exponent r = max (bitlen \<lfloor>\<bar>r\<bar> * 2 ^ 1074\<rfloor> - 1127) (- 1074)"

definition binary64_nearest :: "real \<Rightarrow> real" where
  "binary64_nearest r =
     (let e = binary64_exponent r
      in sgn r * of_int (round_half_even (\<bar>r\<bar> / 2 powi e)) * 2 powi e)"

definition round_binary64 :: "real \<Rightarrow> real option" where
  "round_binary64 r =
     (let v = binary64_nearest r
      in if \<bar>v\<bar> < 2 ^ 1024 then Some v else None)"

text \<open>
  The two constants of the error of one rounding: the relative error of a rounding in
  the normal range is at most \<open>2^-53\<close>, the absolute error of one in the subnormal
  range at most \<open>2^-1075\<close>. And the bound that they give for the mean of \<open>n\<close> equal
  samples \<open>c\<close>, computed with \<open>n\<close> rounded additions and one rounded division.
\<close>

definition unit_roundoff :: real where
  "unit_roundoff = 1 / 2 ^ 53"

definition underflow_unit :: real where
  "underflow_unit = 1 / 2 ^ 1075"

definition mean_error_bound :: "real \<Rightarrow> real \<Rightarrow> nat \<Rightarrow> real \<Rightarrow> real" where
  "mean_error_bound u eta n c = ((1 + u) ^ (n + 1) - 1) * \<bar>c\<bar> + ((1 + u) ^ (n + 1) + 1) * eta"

subsection \<open>processor.py: OrientProcessor\<close>

record OrientProcessor =
  proc_update_rate :: int
  proc_filter :: ComplementaryFilter
  accel_offset :: vec3
  gyro_offset :: vec3
  proc_last_update :: int
  min_interval :: int

text \<open>
  \<^verbatim>\<open>__init__(update_rate=100)\<close>: the filter is built first, with the default weight 0.95
  and its own reading of the clock; \<^verbatim>\<open>1000 // update_rate\<close> is the floor division.
\<close>

definition processor_init :: "int \<Rightarrow> int \<Rightarrow> int \<Rightarrow> py_error + OrientProcessor" where
  "processor_init rate now_filter now =
     (case filter_init rate (95 / 100) now_filter of
        Inl e \<Rightarrow> Inl e
      | Inr f \<Rightarrow>
          if rate = 0 then Inl ZeroDivisionError
          else Inr \<lparr>proc_update_rate = rate, proc_filter = f,
                    accel_offset = Vec3 0 0 0, gyro_offset = Vec3 0 0 0,
                    proc_last_update = now, min_interval = 1000 div rate\<rparr>)"

text \<open>
  The loop of \<^verbatim>\<open>calibrate_gyro\<close>: the three sums after \<open>k\<close> rounds. The sample source
  is the sequence of its readings, \<open>read_gyro_func k\<close> being what the call of round \<open>k\<close>
  returns; \<open>fl\<close> rounds the result of each addition.
\<close>

primrec sum_samples :: "(real \<Rightarrow> real) \<Rightarrow> (nat \<Rightarrow> vec3) \<Rightarrow> nat \<Rightarrow> vec3" where
  "sum_samples fl read_gyro_func 0 = Vec3 0 0 0"
| "sum_samples fl read_gyro_func (Suc k) =
     (let s = sum_samples fl read_gyro_func k; gyro = read_gyro_func k
      in Vec3 (fl (vx s + vx gyro)) (fl (vy s + vy gyro)) (fl (vz s + vz gyro)))"

text \<open>
  \<^verbatim>\<open>calibrate_gyro(read_gyro_func, samples=100, delay_ms=5)\<close>. \<^verbatim>\<open>range(samples)\<close> is
  empty for a count below one, and the division by \<^verbatim>\<open>samples\<close> raises at zero, before
  the offset is assigned. The printing and the sleep between the samples change no
  attribute and are left out.
\<close>

definition calibrate_gyro ::
  "(real \<Rightarrow> real) \<Rightarrow> (nat \<Rightarrow> vec3) \<Rightarrow> int \<Rightarrow> OrientProcessor
     \<Rightarrow> py_error + (vec3 \<times> OrientProcessor)" where
  "calibrate_gyro fl read_gyro_func samples p =
     (let s = sum_samples fl read_gyro_func (nat samples)
      in if samples = 0 then Inl ZeroDivisionError
         else
           (let offset = Vec3 (fl (vx s / real_of_int samples))
                              (fl (vy s / real_of_int samples))
                              (fl (vz s / real_of_int samples))
            in Inr (offset, p\<lparr>gyro_offset := offset\<rparr>)))"

text \<open>
  The same loop and the same method in the arithmetic of doubles: every addition and
  every division is rounded by \<open>round_binary64\<close>. The result is \<open>None\<close> when an
  operation overflows: the code then goes on with an infinity (and stores an infinity
  or a NaN), which the reals of the embedding do not have. It is \<open>None\<close> as well for a
  count beyond \<open>2^53\<close>: the division converts \<^verbatim>\<open>samples\<close> to a double, which is the
  count itself up to \<open>2^53\<close> only.
\<close>

primrec sum_samples_binary64 :: "(nat \<Rightarrow> vec3) \<Rightarrow> nat \<Rightarrow> vec3 option" where
  "sum_samples_binary64 read_gyro_func 0 = Some (Vec3 0 0 0)"
| "sum_samples_binary64 read_gyro_func (Suc k) =
     (case sum_samples_binary64 read_gyro_func k of
        None \<Rightarrow> None
      | Some s \<Rightarrow>
          (let gyro = read_gyro_func k
           in case round_binary64 (vx s + vx gyro) of
                None \<Rightarrow> None
              | Some sum_x \<Rightarrow>
                  (case round_binary64 (vy s + vy gyro) of
                     None \<Rightarrow> None
                   | Some sum_y \<Rightarrow>
                       (case round_binary64 (vz s + vz gyro) of
                          None \<Rightarrow> None
                        | Some sum_z \<Rightarrow> Some (Vec3 sum_x sum_y sum_z)))))"

definition calibrate_gyro_binary64 ::
  "(nat \<Rightarrow> vec3) \<Rightarrow> int \<Rightarrow> OrientProcessor
     \<Rightarrow> (py_error + (vec3 \<times> OrientProcessor)) option" where
  "calibrate_gyro_binary64 read_gyro_func samples p =
     (if 2 ^ 53 < \<bar>samples\<bar> then None
      else case sum_samples_binary64 read_gyro_func (nat samples) of
        None \<Rightarrow> None
      | Some s \<Rightarrow>
          if samples = 0 then Some (Inl ZeroDivisionError)
          else
            (case round_binary64 (vx s / real_of_int samples) of
               None \<Rightarrow> None
             | Some off_x \<Rightarrow>
                 (case round_binary64 (vy s / real_of_int samples) of
                    None \<Rightarrow> None
                  | Some off_y \<Rightarrow>
                      (case round_binary64 (vz s / real_of_int samples) of
                         None \<Rightarrow> None
                       | Some off_z \<Rightarrow>
                           Some (Inr (Vec3 off_x off_y off_z,
                                      p\<lparr>gyro_offset := Vec3 off_x off_y off_z\<rparr>))))))"

text \<open>\<^verbatim>\<open>should_update()\<close>, with the reading \<open>now\<close> of the clock.\<close>

definition should_update :: "int \<Rightarrow> OrientProcessor \<Rightarrow> bool \<times> OrientProcessor" where
  "should_update now p =
     (let elapsed = ticks_diff now (proc_last_update p)
      in (min_interval p \<le> elapsed, p))"

text \<open>
  \<^verbatim>\<open>update(accel, gyro)\<close> of the processor. It reads the clock in \<^verbatim>\<open>should_update\<close>
  (\<open>now_gate\<close>), then itself (\<open>now\<close>), and the filter reads it a third time
  (\<open>now_filter\<close>). \<open>None\<close> is the result of a call that the gate refuses.
\<close>

definition processor_update ::
  "vec3 \<Rightarrow> vec3 \<Rightarrow> int \<Rightarrow> int \<Rightarrow> int \<Rightarrow> OrientProcessor
     \<Rightarrow> py_error + ((real \<times> real) option \<times> OrientProcessor)" where
  "processor_update accel gyro now_gate now now_filter p =
     (if \<not> fst (should_update now_gate p) then Inr (None, p)
      else
        (let delta = real_of_int (ticks_diff now (proc_last_update p)) / 1000;
             p1 = p\<lparr>proc_last_update := now\<rparr>;
             calibrated_gyro = Vec3 (vx gyro - vx (gyro_offset p1))
                                    (vy gyro - vy (gyro_offset p1))
                                    (vz gyro - vz (gyro_offset p1))
         in case filter_update accel calibrated_gyro (Some delta) now_filter (proc_filter p1) of
              Inl e \<Rightarrow> Inl e
            | Inr (angles, f') \<Rightarrow> Inr (Some angles, p1\<lparr>proc_filter := f'\<rparr>)))"

text \<open>\<^verbatim>\<open>get_orientation\<close> and \<^verbatim>\<open>set_filter_weights\<close> hand over to the filter.\<close>

definition get_orientation :: "bool \<Rightarrow> OrientProcessor \<Rightarrow> (real \<times> real) \<times> OrientProcessor" where
  "get_orientation in_degrees p =
     (case get_angles in_degrees (proc_filter p) of
        (angles, f') \<Rightarrow> (angles, p\<lparr>proc_filter := f'\<rparr>))"

definition set_filter_weights ::
  "real option \<Rightarrow> real option \<Rightarrow> real option \<Rightarrow> OrientProcessor \<Rightarrow> bool \<times> OrientProcessor" where
  "set_filter_weights gyro_weight p_weight r_weight p =
     (case set_weights gyro_weight p_weight r_weight (proc_filter p) of
        (ok, f') \<Rightarrow> (ok, p\<lparr>proc_filter := f'\<rparr>))"

subsection \<open>States and runs used in the statements\<close>

text \<open>
  The filter that \<^verbatim>\<open>ComplementaryFilter()\<close> builds (rate 100, weight 0.95) when the clock
  reads 0, used as a concrete state.
\<close>

definition default_filter :: ComplementaryFilter where
  "default_filter =
     \<lparr>update_rate = 100, pitch_weight = Some (95 / 100), roll_weight = Some (95 / 100),
      pitch = 0, roll = 0, last_update = 0, dt = 1 / 100\<rparr>"

text \<open>Both weight attributes exist.\<close>

definition has_weights :: "ComplementaryFilter \<Rightarrow> bool" where
  "has_weights f = (pitch_weight f \<noteq> None \<and> roll_weight f \<noteq> None)"

text \<open>
  The processor that \<^verbatim>\<open>OrientProcessor()\<close> builds (rate 100) when the clock reads 0.
\<close>

definition default_processor :: OrientProcessor where
  "default_processor =
     \<lparr>proc_update_rate = 100, proc_filter = default_filter,
      accel_offset = Vec3 0 0 0, gyro_offset = Vec3 0 0 0,
      proc_last_update = 0, min_interval = 10\<rparr>"

text \<open>
  A sequence of calls of the processor's \<^verbatim>\<open>update\<close>, as the loop of
  \<^verbatim>\<open>examples/simple_model.py\<close> makes them: each call has its two readings and the
  three readings of the clock that it makes; the run stops at the first exception.
\<close>

type_synonym update_call = "vec3 \<times> vec3 \<times> int \<times> int \<times> int"

fun run_updates ::
  "update_call list \<Rightarrow> OrientProcessor
     \<Rightarrow> py_error + ((real \<times> real) option list \<times> OrientProcessor)" where
  "run_updates [] p = Inr ([], p)"
| "run_updates ((accel, gyro, now_gate, now, now_filter) # calls) p =
     (case processor_update accel gyro now_gate now now_filter p of
        Inl e \<Rightarrow> Inl e
      | Inr (r, p1) \<Rightarrow>
          (case run_updates calls p1 of
             Inl e \<Rightarrow> Inl e
           | Inr (rs, p2) \<Rightarrow> Inr (r # rs, p2)))"

subsection \<open>The specification's wording\<close>

text \<open>
  The gate as the specification words it: a call made before the interval has elapsed
  since the time stamp of the last accepted update is refused and leaves the time stamp;
  any other call is accepted and moves the time stamp to its own reading of the clock.
  The result is the list of the decisions and the last time stamp.
\<close>

fun spec_gate :: "int \<Rightarrow> int \<Rightarrow> update_call list \<Rightarrow> bool list \<times> int" where
  "spec_gate interval baseline [] = ([], baseline)"
| "spec_gate interval baseline ((accel, gyro, now_gate, now, now_filter) # calls) =
     (if ticks_diff now_gate baseline < interval
      then (case spec_gate interval baseline calls of (flags, final) \<Rightarrow> (False # flags, final))
      else (case spec_gate interval now calls of (flags, final) \<Rightarrow> (True # flags, final)))"

text \<open>
  The delta that the specification's sentence on the time step prescribes for a call of
  \<^verbatim>\<open>update\<close>: the delta supplied or computed, replaced by the nominal period
  \<open>1 / update_rate\<close> whenever it is not positive. It follows the specification, not
  the code, and is compared with the code below.
\<close>

definition spec_effective_dt :: "ComplementaryFilter \<Rightarrow> real option \<Rightarrow> int \<Rightarrow> real" where
  "spec_effective_dt f dt_arg now =
     (let delta = (case dt_arg of
                     None \<Rightarrow> real_of_int (ticks_diff now (last_update f)) / 1000
                   | Some d \<Rightarrow> d)
      in if delta \<le> 0 then 1 / real_of_int (update_rate f) else delta)"

section \<open>Properties of the filter\<close>

subsection \<open>Auxiliary facts\<close>

lemma filter_init_default: "filter_init 100 (95 / 100) 0 = Inr default_filter"
  by (simp add: filter_init_def set_weights_def in_unit_def default_filter_def)

lemma epsilon_pos: "0 < epsilon"
  by (simp add: epsilon_def)

lemma clamp_denominator_sqrt: "0 \<le> v \<Longrightarrow> clamp_denominator (sqrt v) = max epsilon (sqrt v)"
  by (auto simp: clamp_denominator_def epsilon_def max_def)

lemma clamp_denominator_nonzero:
  "clamp_denominator d \<noteq> 0 \<and> epsilon \<le> \<bar>clamp_denominator d\<bar>"
  by (auto simp: clamp_denominator_def epsilon_def)

lemma py_sqrt_sum_squares: "py_sqrt (a\<^sup>2 + b\<^sup>2) = Inr (sqrt (a\<^sup>2 + b\<^sup>2))"
  by (simp add: py_sqrt_def not_less)

lemma get_accel_pitch_eq:
  "get_accel_pitch accel =
     Inr (atan2 (- vx accel) (max epsilon (sqrt ((vy accel)\<^sup>2 + (vz accel)\<^sup>2))))"
  by (simp add: get_accel_pitch_def py_sqrt_sum_squares clamp_denominator_sqrt)

lemma get_accel_roll_eq:
  "get_accel_roll accel =
     Inr (atan2 (vy accel) (max epsilon (sqrt ((vx accel)\<^sup>2 + (vz accel)\<^sup>2))))"
  by (simp add: get_accel_roll_def py_sqrt_sum_squares clamp_denominator_sqrt)

lemma max_epsilon_one: "max epsilon 1 = 1"
  by (simp add: epsilon_def max_def)

lemma atan2_zero_one: "atan2 0 1 = 0"
  by (simp add: atan2_def)

lemma atan2_pos: "0 < a \<Longrightarrow> atan2 b a = arctan (b / a)"
  by (simp add: atan2_def)

lemma atan2_range_pos: "0 < a \<Longrightarrow> - pi < atan2 b a \<and> atan2 b a \<le> pi"
  using arctan_lbound [of "b / a"] arctan_ubound [of "b / a"] pi_gt_zero
  by (simp add: atan2_pos)

subsection \<open>The blend of one update\<close>

text \<open>
  Claim C1. For every filter state that has its two weights, and every acceleration,
  angular rate and supplied time step \<open>d\<close> (positive or not), \<^verbatim>\<open>update\<close> stores
  \<open>pitch_weight * (old_pitch + gyro.y * d) + (1 - pitch_weight) * accel_pitch\<close> as the
  new pitch and \<open>roll_weight * (old_roll + gyro.x * d) + (1 - roll_weight) * accel_roll\<close>
  as the new roll, where \<open>accel_pitch = atan2(-accel.x, max epsilon (sqrt(accel.y^2 + accel.z^2)))\<close>
  and \<open>accel_roll = atan2(accel.y, max epsilon (sqrt(accel.x^2 + accel.z^2)))\<close>, and it
  returns that pair; besides the two angles it assigns the time stamp and the stored delta.
\<close>

theorem filter_update_blend:
  assumes "pitch_weight f = Some pw" and "roll_weight f = Some rw"
  shows "filter_update accel gyro (Some d) now f =
     Inr ((pw * (pitch f + vy gyro * d)
             + (1 - pw) * atan2 (- vx accel) (max epsilon (sqrt ((vy accel)\<^sup>2 + (vz accel)\<^sup>2))),
           rw * (roll f + vx gyro * d)
             + (1 - rw) * atan2 (vy accel) (max epsilon (sqrt ((vx accel)\<^sup>2 + (vz accel)\<^sup>2)))),
          f\<lparr>last_update := now, dt := d,
            pitch := pw * (pitch f + vy gyro * d)
             + (1 - pw) * atan2 (- vx accel) (max epsilon (sqrt ((vy accel)\<^sup>2 + (vz accel)\<^sup>2))),
            roll := rw * (roll f + vx gyro * d)
             + (1 - rw) * atan2 (vy accel) (max epsilon (sqrt ((vx accel)\<^sup>2 + (vz accel)\<^sup>2)))\<rparr>)"
  using assms
  by (simp add: filter_update_def get_accel_pitch_eq get_accel_roll_eq get_angles_def Let_def)

theorem filter_update_blend_witness:
  "filter_update (Vec3 0 0 1) (Vec3 2 1 0) (Some (1 / 100)) 10 default_filter =
     Inr ((19 / 2000, 19 / 1000),
          default_filter\<lparr>last_update := 10, dt := 1 / 100, pitch := 19 / 2000, roll := 19 / 1000\<rparr>)"
  using filter_update_blend
    [of default_filter "95 / 100" "95 / 100" "Vec3 0 0 1" "Vec3 2 1 0" "1 / 100" 10]
  by (simp add: default_filter_def max_epsilon_one atan2_zero_one)

subsection \<open>The angles of the accelerometer\<close>

text \<open>
  Claim C5. The guard never hands a zero denominator to \<open>atan2\<close>: the guarded value is
  not 0 and its magnitude is at least \<open>epsilon\<close>. For every acceleration vector the two
  angles are computed (no exception) from a denominator that is at least \<open>epsilon\<close>, and
  each lies in the interval from \<open>-pi\<close> (excluded) to \<open>pi\<close> (included); at the vector
  (0, 0, 0) both are 0; and no call of \<^verbatim>\<open>update\<close> raises \<^verbatim>\<open>ZeroDivisionError\<close> or a
  domain error of the square root.
\<close>

theorem accel_angles_safe:
  "clamp_denominator d \<noteq> 0 \<and> epsilon \<le> \<bar>clamp_denominator d\<bar>
   \<and> (\<exists>D. epsilon \<le> D \<and> get_accel_pitch accel = Inr (atan2 (- vx accel) D)
          \<and> - pi < atan2 (- vx accel) D \<and> atan2 (- vx accel) D \<le> pi)
   \<and> (\<exists>D. epsilon \<le> D \<and> get_accel_roll accel = Inr (atan2 (vy accel) D)
          \<and> - pi < atan2 (vy accel) D \<and> atan2 (vy accel) D \<le> pi)
   \<and> get_accel_pitch (Vec3 0 0 0) = Inr 0 \<and> get_accel_roll (Vec3 0 0 0) = Inr 0
   \<and> filter_update accel gyro dt_arg now f \<noteq> Inl ZeroDivisionError
   \<and> filter_update accel gyro dt_arg now f \<noteq> Inl ValueError"
proof -
  let ?P = "max epsilon (sqrt ((vy accel)\<^sup>2 + (vz accel)\<^sup>2))"
  let ?R = "max epsilon (sqrt ((vx accel)\<^sup>2 + (vz accel)\<^sup>2))"
  have P: "0 < ?P"
    by (rule less_le_trans [OF epsilon_pos]) simp
  have R: "0 < ?R"
    by (rule less_le_trans [OF epsilon_pos]) simp
  have pitch_ok: "\<exists>D. epsilon \<le> D \<and> get_accel_pitch accel = Inr (atan2 (- vx accel) D)
          \<and> - pi < atan2 (- vx accel) D \<and> atan2 (- vx accel) D \<le> pi"
    using atan2_range_pos [OF P] get_accel_pitch_eq [of accel] by (intro exI [of _ ?P]) simp
  have roll_ok: "\<exists>D. epsilon \<le> D \<and> get_accel_roll accel = Inr (atan2 (vy accel) D)
          \<and> - pi < atan2 (vy accel) D \<and> atan2 (vy accel) D \<le> pi"
    using atan2_range_pos [OF R] get_accel_roll_eq [of accel] by (intro exI [of _ ?R]) simp
  have zero: "get_accel_pitch (Vec3 0 0 0) = Inr 0 \<and> get_accel_roll (Vec3 0 0 0) = Inr 0"
    using epsilon_pos by (simp add: get_accel_pitch_eq get_accel_roll_eq atan2_def)
  have no_fault: "filter_update accel gyro dt_arg now f \<noteq> Inl ZeroDivisionError
     \<and> filter_update accel gyro dt_arg now f \<noteq> Inl ValueError"
    by (simp add: filter_update_def get_accel_pitch_eq get_accel_roll_eq get_angles_def Let_def
        split: option.splits)
  show ?thesis
    using clamp_denominator_nonzero [of d] pitch_ok roll_ok zero no_fault by blast
qed

subsection \<open>The time step of one update\<close>

text \<open>
  Claim C2 reads: whenever the effective delta of an update would be \<open>\<le> 0\<close>, the nominal
  period \<open>1 / update_rate\<close> is used instead, whether the delta was supplied by the caller
  or computed from the clock. The code does otherwise in two ways. A supplied delta is
  not tested: with \<^verbatim>\<open>dt = -1\<close> the default filter integrates the rate 1 backwards, to the
  pitch \<open>-0.95\<close>, where the specification's delta is \<open>1/100\<close>. And the substitute of a
  computed delta is the stored \<^verbatim>\<open>self.dt\<close>: after an update that used the delta \<open>1/2\<close>,
  a call at the same tick uses \<open>1/2\<close> again, not \<open>1/100\<close>.
\<close>

theorem explicit_nonpositive_dt_integrated:
  "filter_update (Vec3 0 0 1) (Vec3 0 1 0) (Some (- 1)) 10 default_filter =
     Inr ((- (19 / 20), 0),
          default_filter\<lparr>last_update := 10, dt := - 1, pitch := - (19 / 20), roll := 0\<rparr>)
   \<and> spec_effective_dt default_filter (Some (- 1)) 10 = 1 / 100
   \<and> filter_update (Vec3 0 0 1) (Vec3 0 1 0) None 10
        (default_filter\<lparr>last_update := 10, dt := 1 / 2\<rparr>) =
     Inr ((19 / 40, 0),
          default_filter\<lparr>last_update := 10, dt := 1 / 2, pitch := 19 / 40, roll := 0\<rparr>)
   \<and> spec_effective_dt (default_filter\<lparr>last_update := 10, dt := 1 / 2\<rparr>) None 10 = 1 / 100"
  by (simp add: filter_update_def get_accel_pitch_eq get_accel_roll_eq get_angles_def
      default_filter_def spec_effective_dt_def ticks_diff_def TICKS_PERIOD_def
      max_epsilon_one atan2_zero_one)

text \<open>
  Claim C2, amended. For every filter state with its two weights, \<^verbatim>\<open>update\<close> returns, and
  the delta it integrates (and stores in \<^verbatim>\<open>self.dt\<close>) is: the supplied \<^verbatim>\<open>dt\<close>, as it is,
  when the caller supplies one; otherwise the delta computed from the clock when that is
  positive, and the stored \<^verbatim>\<open>self.dt\<close> when it is not. The new angles are the blend with
  that delta. So a call without \<^verbatim>\<open>dt\<close> on a filter whose stored delta is positive
  integrates a positive delta; and the stored delta of a filter just built is
  \<open>1 / update_rate\<close> (the construction raises at rate 0).
\<close>

theorem filter_update_delta:
  assumes "pitch_weight f = Some pw" and "roll_weight f = Some rw"
  shows "\<exists>angles f'. filter_update accel gyro dt_arg now f = Inr (angles, f')
     \<and> dt f' = (case dt_arg of
                  Some d \<Rightarrow> d
                | None \<Rightarrow>
                    if real_of_int (ticks_diff now (last_update f)) / 1000 \<le> 0 then dt f
                    else real_of_int (ticks_diff now (last_update f)) / 1000)
     \<and> pitch f' = pw * (pitch f + vy gyro * dt f')
          + (1 - pw) * atan2 (- vx accel) (max epsilon (sqrt ((vy accel)\<^sup>2 + (vz accel)\<^sup>2)))
     \<and> roll f' = rw * (roll f + vx gyro * dt f')
          + (1 - rw) * atan2 (vy accel) (max epsilon (sqrt ((vx accel)\<^sup>2 + (vz accel)\<^sup>2)))
     \<and> (if dt_arg = None \<and> 0 < dt f then 0 < dt f' else True)
     \<and> (if rate = 0 then filter_init rate w now = Inl ZeroDivisionError
         else \<exists>f0. filter_init rate w now = Inr f0 \<and> dt f0 = 1 / real_of_int rate)"
  using assms
  by (cases dt_arg)
     (simp_all add: filter_update_def get_accel_pitch_eq get_accel_roll_eq get_angles_def
       filter_init_def Let_def)

theorem filter_update_delta_witness:
  "\<exists>angles f'. filter_update (Vec3 0 0 1) (Vec3 0 1 0) None 10 default_filter = Inr (angles, f')
     \<and> dt f' = 1 / 100 \<and> pitch f' = 19 / 2000 \<and> roll f' = 0"
proof -
  have w: "pitch_weight default_filter = Some (95 / 100)"
    "roll_weight default_filter = Some (95 / 100)"
    by (simp_all add: default_filter_def)
  from filter_update_delta [OF w, of "Vec3 0 0 1" "Vec3 0 1 0" None 10 100 0]
  obtain angles f' where
    "filter_update (Vec3 0 0 1) (Vec3 0 1 0) None 10 default_filter = Inr (angles, f')"
    "dt f' = 1 / 100" "pitch f' = 19 / 2000" "roll f' = 0"
    by (auto simp: default_filter_def ticks_diff_def TICKS_PERIOD_def max_epsilon_one
        atan2_zero_one)
  then show ?thesis by blast
qed

subsection \<open>Setting the weights\<close>

text \<open>
  Claim C3 reads: a call of \<^verbatim>\<open>set_weights\<close> with any value out of range fails and leaves
  both weights as they were. The code stores the values of the blocks that come before
  the one that fails: on the default filter (both weights 0.95),
  \<^verbatim>\<open>set_weights(gyro_weight=0.5, pitch_weight=2)\<close> fails with both weights at 0.5, and
  \<^verbatim>\<open>set_weights(pitch_weight=0.3, roll_weight=5)\<close> fails with the pitch weight at 0.3.
\<close>

theorem set_weights_partial_application:
  "set_weights (Some (1 / 2)) (Some 2) None default_filter =
     (False, default_filter\<lparr>pitch_weight := Some (1 / 2), roll_weight := Some (1 / 2)\<rparr>)
   \<and> pitch_weight default_filter = Some (95 / 100)
   \<and> roll_weight default_filter = Some (95 / 100)
   \<and> set_weights None (Some (3 / 10)) (Some 5) default_filter =
     (False, default_filter\<lparr>pitch_weight := Some (3 / 10)\<rparr>)"
  by (simp add: set_weights_def in_unit_def default_filter_def)

text \<open>
  Claim C3, amended. For every filter state whose two weights lie in [0, 1] and every
  combination of arguments of which at least one lies outside [0, 1], \<^verbatim>\<open>set_weights\<close>
  returns failure; no value out of range is stored (both weights still lie in [0, 1]);
  no attribute but the two weights changes; the whole state is as before the call when
  the first argument supplied, in the order \<^verbatim>\<open>gyro_weight\<close>, \<^verbatim>\<open>pitch_weight\<close>,
  \<^verbatim>\<open>roll_weight\<close>, is the one out of range (so for every call with one argument); and
  the arguments in range that come before the rejected one are stored: the roll weight
  is the uniform weight when that is in range and the old one otherwise, the pitch
  weight is the pitch argument when in range, else the uniform weight when in range,
  else the old one.
\<close>

theorem set_weights_failure:
  assumes "pitch_weight f = Some a" and "in_unit a"
    and "roll_weight f = Some b" and "in_unit b"
    and "(case gyro_weight of Some g \<Rightarrow> \<not> in_unit g | None \<Rightarrow> False)
         \<or> (case p_weight of Some p \<Rightarrow> \<not> in_unit p | None \<Rightarrow> False)
         \<or> (case r_weight of Some r \<Rightarrow> \<not> in_unit r | None \<Rightarrow> False)"
  shows "fst (set_weights gyro_weight p_weight r_weight f) = False
     \<and> (\<exists>a' b'. pitch_weight (snd (set_weights gyro_weight p_weight r_weight f)) = Some a'
           \<and> in_unit a'
           \<and> roll_weight (snd (set_weights gyro_weight p_weight r_weight f)) = Some b'
           \<and> in_unit b')
     \<and> snd (set_weights gyro_weight p_weight r_weight f) =
         f\<lparr>pitch_weight := pitch_weight (snd (set_weights gyro_weight p_weight r_weight f)),
           roll_weight := roll_weight (snd (set_weights gyro_weight p_weight r_weight f))\<rparr>
     \<and> (if (case gyro_weight of
              Some g \<Rightarrow> \<not> in_unit g
            | None \<Rightarrow> (case p_weight of Some p \<Rightarrow> \<not> in_unit p | None \<Rightarrow> True))
         then snd (set_weights gyro_weight p_weight r_weight f) = f else True)
     \<and> roll_weight (snd (set_weights gyro_weight p_weight r_weight f)) =
         (case gyro_weight of
            Some g \<Rightarrow> if in_unit g then Some g else roll_weight f
          | None \<Rightarrow> roll_weight f)
     \<and> pitch_weight (snd (set_weights gyro_weight p_weight r_weight f)) =
         (case gyro_weight of
            Some g \<Rightarrow>
              if \<not> in_unit g then pitch_weight f
              else (case p_weight of
                      Some p \<Rightarrow> if in_unit p then Some p else Some g
                    | None \<Rightarrow> Some g)
          | None \<Rightarrow>
              (case p_weight of
                 Some p \<Rightarrow> if in_unit p then Some p else pitch_weight f
               | None \<Rightarrow> pitch_weight f))"
  using assms
  by (cases gyro_weight; cases p_weight; cases r_weight) (auto simp: set_weights_def)

theorem set_weights_failure_witness:
  "fst (set_weights (Some (1 / 2)) (Some 2) None default_filter) = False
   \<and> pitch_weight (snd (set_weights (Some (1 / 2)) (Some 2) None default_filter)) = Some (1 / 2)
   \<and> roll_weight (snd (set_weights (Some (1 / 2)) (Some 2) None default_filter)) = Some (1 / 2)
   \<and> fst (set_weights None None (Some 5) default_filter) = False
   \<and> snd (set_weights None None (Some 5) default_filter) = default_filter"
  using set_weights_failure [of default_filter "95 / 100" "95 / 100" "Some (1 / 2)" "Some 2" None]
    set_weights_failure [of default_filter "95 / 100" "95 / 100" None None "Some 5"]
  by (simp add: default_filter_def in_unit_def)

subsection \<open>Reading and resetting\<close>

text \<open>
  Claim C8. For every filter state, after \<^verbatim>\<open>reset()\<close> the stored pitch and roll are both
  0, so that \<^verbatim>\<open>get_angles()\<close> returns (0, 0) in radians as in degrees, whatever the angles
  were before; and \<open>pitch_weight\<close> and \<open>roll_weight\<close> are what they were before the reset.
\<close>

theorem reset_zeroes_angles_keeps_weights:
  "pitch (snd (reset now f)) = 0 \<and> roll (snd (reset now f)) = 0
   \<and> fst (get_angles in_degrees (snd (reset now f))) = (0, 0)
   \<and> pitch_weight (snd (reset now f)) = pitch_weight f
   \<and> roll_weight (snd (reset now f)) = roll_weight f"
  by (simp add: reset_def get_angles_def degrees_def)

text \<open>
  Claim C9. For every filter state and every \<^verbatim>\<open>in_degrees\<close> flag, \<^verbatim>\<open>get_angles\<close> leaves
  every attribute as it was, a second call with no update in between returns the same
  pair as the first, and with \<^verbatim>\<open>in_degrees\<close> true the pair is the stored radian angles
  each multiplied by \<open>180 / pi\<close>.
\<close>

theorem get_angles_pure:
  "snd (get_angles in_degrees f) = f
   \<and> fst (get_angles in_degrees (snd (get_angles in_degrees f))) = fst (get_angles in_degrees f)
   \<and> fst (get_angles True f) = (pitch f * 180 / pi, roll f * 180 / pi)
   \<and> fst (get_angles False f) = (pitch f, roll f)"
  by (simp add: get_angles_def degrees_def)

section \<open>Properties of the processor\<close>

subsection \<open>Auxiliary facts\<close>

lemma processor_init_default: "processor_init 100 0 0 = Inr default_processor"
  using filter_init_default by (simp add: processor_init_def default_processor_def)

lemma filter_update_has_weights:
  assumes "has_weights f"
  shows "\<exists>angles f'. filter_update accel gyro dt_arg now f = Inr (angles, f')
     \<and> has_weights f' \<and> pitch_weight f' = pitch_weight f \<and> roll_weight f' = roll_weight f"
  using assms
  by (auto simp: has_weights_def filter_update_def get_accel_pitch_eq get_accel_roll_eq
      get_angles_def Let_def)

lemma processor_update_refused:
  "ticks_diff now_gate (proc_last_update p) < min_interval p \<Longrightarrow>
   processor_update accel gyro now_gate now now_filter p = Inr (None, p)"
  by (simp add: processor_update_def should_update_def)

lemma processor_update_accepted:
  assumes "min_interval p \<le> ticks_diff now_gate (proc_last_update p)"
    and "has_weights (proc_filter p)"
  shows "\<exists>angles f'.
     filter_update accel
       (Vec3 (vx gyro - vx (gyro_offset p)) (vy gyro - vy (gyro_offset p))
             (vz gyro - vz (gyro_offset p)))
       (Some (real_of_int (ticks_diff now (proc_last_update p)) / 1000)) now_filter
       (proc_filter p) = Inr (angles, f')
     \<and> has_weights f'
     \<and> processor_update accel gyro now_gate now now_filter p =
         Inr (Some angles, p\<lparr>proc_last_update := now, proc_filter := f'\<rparr>)"
proof -
  from filter_update_has_weights [OF assms(2)]
  obtain angles f' where
    "filter_update accel
       (Vec3 (vx gyro - vx (gyro_offset p)) (vy gyro - vy (gyro_offset p))
             (vz gyro - vz (gyro_offset p)))
       (Some (real_of_int (ticks_diff now (proc_last_update p)) / 1000)) now_filter
       (proc_filter p) = Inr (angles, f')" "has_weights f'"
    by blast
  with assms(1) show ?thesis
    by (simp add: processor_update_def should_update_def)
qed

lemma processor_update_Some:
  assumes "processor_update accel gyro now_gate now now_filter p = Inr (Some angles, p')"
  shows "min_interval p \<le> ticks_diff now_gate (proc_last_update p)
     \<and> proc_last_update p' = now \<and> min_interval p' = min_interval p"
  using assms
  by (auto simp: processor_update_def should_update_def Let_def
      split: if_splits sum.splits)

lemma ticks_diff_ticks_add:
  "- (2 ^ 29) \<le> k \<Longrightarrow> k < 2 ^ 29 \<Longrightarrow> ticks_diff (ticks_add t k) t = k"
proof -
  assume k: "- (2 ^ 29) \<le> k" "k < 2 ^ 29"
  have "((t + k) mod 2 ^ 30 - t + 2 ^ 29) mod 2 ^ 30 = (k + 2 ^ 29) mod (2 ^ 30 :: int)"
    by (metis (no_types, opaque_lifting) add.commute add_diff_cancel_left' diff_add_eq mod_add_left_eq mod_diff_left_eq)
  also have "\<dots> = k + 2 ^ 29"
    using k by (simp add: mod_pos_pos_trivial)
  finally show ?thesis
    by (simp add: ticks_diff_def ticks_add_def TICKS_PERIOD_def)
qed

lemma run_updates_gate:
  assumes "has_weights (proc_filter p)"
  shows "\<exists>rs p'. run_updates calls p = Inr (rs, p')
     \<and> map (\<lambda>r. r \<noteq> None) rs = fst (spec_gate (min_interval p) (proc_last_update p) calls)
     \<and> proc_last_update p' = snd (spec_gate (min_interval p) (proc_last_update p) calls)
     \<and> min_interval p' = min_interval p \<and> has_weights (proc_filter p')"
  using assms
proof (induction calls arbitrary: p)
  case Nil
  then show ?case by simp
next
  case (Cons c calls)
  obtain accel gyro now_gate now now_filter where c: "c = (accel, gyro, now_gate, now, now_filter)"
    by (cases c)
  show ?case
  proof (cases "ticks_diff now_gate (proc_last_update p) < min_interval p")
    case True
    from Cons.IH [OF Cons.prems] obtain rs p' where
      "run_updates calls p = Inr (rs, p')"
      "map (\<lambda>r. r \<noteq> None) rs = fst (spec_gate (min_interval p) (proc_last_update p) calls)"
      "proc_last_update p' = snd (spec_gate (min_interval p) (proc_last_update p) calls)"
      "min_interval p' = min_interval p" "has_weights (proc_filter p')"
      by blast
    with True show ?thesis
      by (simp add: c processor_update_refused split: prod.splits)
  next
    case False
    then have le: "min_interval p \<le> ticks_diff now_gate (proc_last_update p)" by simp
    from processor_update_accepted [OF le Cons.prems, of accel gyro now now_filter]
    obtain angles f' where
      acc: "processor_update accel gyro now_gate now now_filter p =
         Inr (Some angles, p\<lparr>proc_last_update := now, proc_filter := f'\<rparr>)"
      and w: "has_weights f'"
      by blast
    let ?p1 = "p\<lparr>proc_last_update := now, proc_filter := f'\<rparr>"
    have "has_weights (proc_filter ?p1)" using w by simp
    from Cons.IH [OF this] obtain rs p' where
      "run_updates calls ?p1 = Inr (rs, p')"
      "map (\<lambda>r. r \<noteq> None) rs = fst (spec_gate (min_interval p) now calls)"
      "proc_last_update p' = snd (spec_gate (min_interval p) now calls)"
      "min_interval p' = min_interval p" "has_weights (proc_filter p')"
      by auto
    with False acc show ?thesis
      by (simp add: c split: prod.splits)
  qed
qed

lemma default_filter_has_weights: "has_weights default_filter"
  by (simp add: default_filter_def has_weights_def)

lemma default_processor_facts:
  "min_interval default_processor = 10" "has_weights (proc_filter default_processor)"
  "proc_last_update default_processor = 0"
  by (simp_all add: default_processor_def default_filter_def has_weights_def)

subsection \<open>The gate on the update rate\<close>

text \<open>
  Claim C4. A call of the processor's \<^verbatim>\<open>update\<close> made before \<open>min_interval\<close> has
  elapsed since the stored time stamp returns the no-op result and leaves the whole
  state as it was, the time stamp included; a call that returns angles was made at least
  \<open>min_interval\<close> after the stored time stamp and moves the stamp to its own reading of
  the clock. So on every sequence of calls the decisions and the final time stamp are
  those of the specification's gate, which measures every call against the stamp of the
  last accepted one: no two accepted updates are closer than \<open>min_interval\<close>. A processor
  built with rate 100 has \<open>min_interval = 10\<close>; with that interval, calls at the ticks
  \<open>t\<close> (accepted), \<open>t + 5\<close> and \<open>t + 11\<close> give angles, no-op, angles. Elapsed time is what
  \<open>ticks_diff\<close> measures, and the ticks \<open>t + 5\<close>, \<open>t + 11\<close> wrap at the period of the
  counter.
\<close>

theorem processor_update_rate_gate:
  "(ticks_diff now_gate (proc_last_update p) < min_interval p \<longrightarrow>
      processor_update accel gyro now_gate now now_filter p = Inr (None, p))
   \<and> (\<forall>angles p'. processor_update accel gyro now_gate now now_filter p = Inr (Some angles, p') \<longrightarrow>
         min_interval p \<le> ticks_diff now_gate (proc_last_update p) \<and> proc_last_update p' = now)
   \<and> (has_weights (proc_filter p) \<longrightarrow>
        (\<exists>rs p'. run_updates calls p = Inr (rs, p')
           \<and> map (\<lambda>r. r \<noteq> None) rs = fst (spec_gate (min_interval p) (proc_last_update p) calls)
           \<and> proc_last_update p' = snd (spec_gate (min_interval p) (proc_last_update p) calls)))
   \<and> (\<exists>p0. processor_init 100 t0 t1 = Inr p0 \<and> min_interval p0 = 10
          \<and> proc_last_update p0 = t1 \<and> has_weights (proc_filter p0))
   \<and> (min_interval q = 10 \<and> has_weights (proc_filter q) \<and> 10 \<le> ticks_diff t (proc_last_update q) \<longrightarrow>
        (\<exists>a1 q1 a3 q3.
           processor_update accel1 gyro1 t t t q = Inr (Some a1, q1)
           \<and> proc_last_update q1 = t
           \<and> processor_update accel2 gyro2 (ticks_add t 5) (ticks_add t 5) (ticks_add t 5) q1
               = Inr (None, q1)
           \<and> processor_update accel3 gyro3 (ticks_add t 11) (ticks_add t 11) (ticks_add t 11) q1
               = Inr (Some a3, q3)
           \<and> proc_last_update q3 = ticks_add t 11))"
proof -
  have refused: "ticks_diff now_gate (proc_last_update p) < min_interval p \<longrightarrow>
      processor_update accel gyro now_gate now now_filter p = Inr (None, p)"
    by (simp add: processor_update_refused)
  have accepted: "\<forall>angles p'.
      processor_update accel gyro now_gate now now_filter p = Inr (Some angles, p') \<longrightarrow>
      min_interval p \<le> ticks_diff now_gate (proc_last_update p) \<and> proc_last_update p' = now"
    using processor_update_Some by blast
  have seq: "has_weights (proc_filter p) \<longrightarrow>
        (\<exists>rs p'. run_updates calls p = Inr (rs, p')
           \<and> map (\<lambda>r. r \<noteq> None) rs = fst (spec_gate (min_interval p) (proc_last_update p) calls)
           \<and> proc_last_update p' = snd (spec_gate (min_interval p) (proc_last_update p) calls))"
    using run_updates_gate [of p calls] by blast
  have init: "\<exists>p0. processor_init 100 t0 t1 = Inr p0 \<and> min_interval p0 = 10
          \<and> proc_last_update p0 = t1 \<and> has_weights (proc_filter p0)"
    by (simp add: processor_init_def filter_init_def set_weights_def in_unit_def has_weights_def
        del: not_None_eq)
  have scenario: "\<exists>a1 q1 a3 q3.
           processor_update accel1 gyro1 t t t q = Inr (Some a1, q1)
           \<and> proc_last_update q1 = t
           \<and> processor_update accel2 gyro2 (ticks_add t 5) (ticks_add t 5) (ticks_add t 5) q1
               = Inr (None, q1)
           \<and> processor_update accel3 gyro3 (ticks_add t 11) (ticks_add t 11) (ticks_add t 11) q1
               = Inr (Some a3, q3)
           \<and> proc_last_update q3 = ticks_add t 11"
    if q: "min_interval q = 10" "has_weights (proc_filter q)"
      "10 \<le> ticks_diff t (proc_last_update q)"
  proof -
    from q have le: "min_interval q \<le> ticks_diff t (proc_last_update q)" by simp
    from processor_update_accepted [OF le q(2), of accel1 gyro1 t t]
    obtain a1 f1 where w1: "has_weights f1"
      and u1: "processor_update accel1 gyro1 t t t q =
           Inr (Some a1, q\<lparr>proc_last_update := t, proc_filter := f1\<rparr>)"
      by blast
    let ?q1 = "q\<lparr>proc_last_update := t, proc_filter := f1\<rparr>"
    have d5: "ticks_diff (ticks_add t 5) t = 5"
      and d11: "ticks_diff (ticks_add t 11) t = 11"
      by (simp_all add: ticks_diff_ticks_add)
    have u2: "processor_update accel2 gyro2 (ticks_add t 5) (ticks_add t 5) (ticks_add t 5) ?q1
        = Inr (None, ?q1)"
      by (rule processor_update_refused) (simp add: d5 q(1))
    have le3: "min_interval ?q1 \<le> ticks_diff (ticks_add t 11) (proc_last_update ?q1)"
      by (simp add: d11 q(1))
    have w1': "has_weights (proc_filter ?q1)" using w1 by simp
    from processor_update_accepted [OF le3 w1', of accel3 gyro3 "ticks_add t 11" "ticks_add t 11"]
    obtain a3 f3 where
      u3: "processor_update accel3 gyro3 (ticks_add t 11) (ticks_add t 11) (ticks_add t 11) ?q1 =
           Inr (Some a3, ?q1\<lparr>proc_last_update := ticks_add t 11, proc_filter := f3\<rparr>)"
      by blast
    show ?thesis
      using u1 u2 u3 by (intro exI [of _ a1] exI [of _ ?q1] exI [of _ a3]
          exI [of _ "?q1\<lparr>proc_last_update := ticks_add t 11, proc_filter := f3\<rparr>"]) simp
  qed
  show ?thesis
    using refused accepted seq init scenario by blast
qed

theorem processor_update_rate_gate_witness:
  "processor_update (Vec3 0 0 1) (Vec3 0 0 0) 5 5 5 default_processor = Inr (None, default_processor)
   \<and> (\<exists>a1 q1 a3 q3.
        processor_update (Vec3 0 0 1) (Vec3 0 0 0) 10 10 10 default_processor = Inr (Some a1, q1)
        \<and> proc_last_update q1 = 10
        \<and> processor_update (Vec3 0 0 1) (Vec3 0 0 0) 15 15 15 q1 = Inr (None, q1)
        \<and> processor_update (Vec3 0 0 1) (Vec3 0 0 0) 21 21 21 q1 = Inr (Some a3, q3)
        \<and> proc_last_update q3 = 21)
   \<and> (\<exists>rs p'. run_updates
          [(Vec3 0 0 1, Vec3 0 0 0, 10, 10, 10), (Vec3 0 0 1, Vec3 0 0 0, 15, 15, 15),
           (Vec3 0 0 1, Vec3 0 0 0, 21, 21, 21)] default_processor = Inr (rs, p')
        \<and> map (\<lambda>r. r \<noteq> None) rs = [True, False, True] \<and> proc_last_update p' = 21)"
proof -
  let ?calls = "[(Vec3 0 0 1, Vec3 0 0 0, 10, 10, 10), (Vec3 0 0 1, Vec3 0 0 0, 15, 15, 15),
         (Vec3 0 0 1, Vec3 0 0 0, 21, 21, 21)] :: update_call list"
  have early: "ticks_diff 5 (proc_last_update default_processor) < min_interval default_processor"
    by (simp add: default_processor_facts ticks_diff_def TICKS_PERIOD_def)
  have refused: "processor_update (Vec3 0 0 1) (Vec3 0 0 0) 5 5 5 default_processor
      = Inr (None, default_processor)"
    by (rule processor_update_rate_gate [THEN conjunct1, THEN mp, OF early])
  have first: "min_interval default_processor = 10 \<and> has_weights (proc_filter default_processor)
      \<and> 10 \<le> ticks_diff 10 (proc_last_update default_processor)"
    by (simp add: default_processor_facts ticks_diff_def TICKS_PERIOD_def)
  have ticks: "ticks_add 10 5 = 15" "ticks_add 10 11 = 21"
    by (simp_all add: ticks_add_def TICKS_PERIOD_def)
  have three: "\<exists>a1 q1 a3 q3.
        processor_update (Vec3 0 0 1) (Vec3 0 0 0) 10 10 10 default_processor = Inr (Some a1, q1)
        \<and> proc_last_update q1 = 10
        \<and> processor_update (Vec3 0 0 1) (Vec3 0 0 0) 15 15 15 q1 = Inr (None, q1)
        \<and> processor_update (Vec3 0 0 1) (Vec3 0 0 0) 21 21 21 q1 = Inr (Some a3, q3)
        \<and> proc_last_update q3 = 21"
    using processor_update_rate_gate
      [where ?accel1.0 = "Vec3 0 0 1" and ?gyro1.0 = "Vec3 0 0 0"
          and ?accel2.0 = "Vec3 0 0 1" and ?gyro2.0 = "Vec3 0 0 0"
          and ?accel3.0 = "Vec3 0 0 1" and ?gyro3.0 = "Vec3 0 0 0",
        THEN conjunct2, THEN conjunct2, THEN conjunct2, THEN conjunct2, THEN mp, OF first]
    by (simp add: ticks)
  have gate: "spec_gate 10 0 ?calls = ([True, False, True], 21)"
    by (simp add: ticks_diff_def TICKS_PERIOD_def)
  have run: "\<exists>rs p'. run_updates ?calls default_processor = Inr (rs, p')
        \<and> map (\<lambda>r. r \<noteq> None) rs = [True, False, True] \<and> proc_last_update p' = 21"
    using processor_update_rate_gate
      [THEN conjunct2, THEN conjunct2, THEN conjunct1, THEN mp, OF default_processor_facts(2),
        of ?calls]
    unfolding default_processor_facts gate by auto
  show ?thesis
    using refused three run by blast
qed

subsection \<open>What calibration changes\<close>

text \<open>
  Claim C10. For every processor state, every sample source, every rounding and every
  sample count other than 0 (so every count \<open>\<ge> 1\<close>), \<^verbatim>\<open>calibrate_gyro\<close> returns the new
  offset and changes \<open>gyro_offset\<close> only: the filter with its pitch, roll and two
  weights, \<open>accel_offset\<close>, \<open>min_interval\<close> and the time stamp of the gate are as before,
  and so are the orientation that \<^verbatim>\<open>get_orientation\<close> reports and the answer of
  \<^verbatim>\<open>should_update\<close>.
\<close>

theorem calibrate_gyro_frame:
  assumes "samples \<noteq> 0"
  shows "\<exists>offset p'. calibrate_gyro fl read_gyro_func samples p = Inr (offset, p')
     \<and> gyro_offset p' = offset
     \<and> p' = p\<lparr>gyro_offset := offset\<rparr>
     \<and> proc_filter p' = proc_filter p
     \<and> pitch (proc_filter p') = pitch (proc_filter p)
     \<and> roll (proc_filter p') = roll (proc_filter p)
     \<and> pitch_weight (proc_filter p') = pitch_weight (proc_filter p)
     \<and> roll_weight (proc_filter p') = roll_weight (proc_filter p)
     \<and> accel_offset p' = accel_offset p
     \<and> min_interval p' = min_interval p
     \<and> proc_last_update p' = proc_last_update p
     \<and> fst (get_orientation in_degrees p') = fst (get_orientation in_degrees p)
     \<and> fst (should_update now p') = fst (should_update now p)"
  using assms
  by (simp add: calibrate_gyro_def Let_def get_orientation_def should_update_def
      split: prod.splits)

theorem calibrate_gyro_frame_witness:
  "\<exists>offset. calibrate_gyro (\<lambda>r. r) (\<lambda>k. Vec3 (real k) 1 0) 3 default_processor =
      Inr (offset, default_processor\<lparr>gyro_offset := offset\<rparr>)"
  using calibrate_gyro_frame [of 3 "\<lambda>r. r" "\<lambda>k. Vec3 (real k) 1 0" default_processor False 0]
  by auto

subsection \<open>The mean that calibration stores\<close>

lemma sum_samples_exact:
  assumes "\<And>k. k \<le> n \<Longrightarrow>
      fl (real k * vx b) = real k * vx b \<and> fl (real k * vy b) = real k * vy b
      \<and> fl (real k * vz b) = real k * vz b"
    and "m \<le> n"
  shows "sum_samples fl (\<lambda>k. b) m = Vec3 (real m * vx b) (real m * vy b) (real m * vz b)"
  using assms(2)
proof (induction m)
  case 0
  then show ?case by simp
next
  case (Suc m)
  then have IH: "sum_samples fl (\<lambda>k. b) m = Vec3 (real m * vx b) (real m * vy b) (real m * vz b)"
    by simp
  have e: "real m * c + c = real (Suc m) * c" for c :: real
    by (simp add: algebra_simps)
  from assms(1) [OF Suc.prems] show ?case
    by (simp add: IH Let_def e del: of_nat_Suc)
qed

lemma calibrate_gyro_exact:
  assumes "1 \<le> samples"
    and "\<And>k. k \<le> nat samples \<Longrightarrow>
      fl (real k * vx b) = real k * vx b \<and> fl (real k * vy b) = real k * vy b
      \<and> fl (real k * vz b) = real k * vz b"
  shows "calibrate_gyro fl (\<lambda>k. b) samples p = Inr (b, p\<lparr>gyro_offset := b\<rparr>)"
proof -
  have s: "sum_samples fl (\<lambda>k. b) (nat samples) =
      Vec3 (real (nat samples) * vx b) (real (nat samples) * vy b) (real (nat samples) * vz b)"
    using sum_samples_exact [of "nat samples" fl b "nat samples"] assms(2) by simp
  have n: "real (nat samples) = real_of_int samples" "real_of_int samples \<noteq> 0"
    using assms(1) by simp_all
  have one: "fl (vx b) = vx b \<and> fl (vy b) = vy b \<and> fl (vz b) = vz b"
    using assms(2) [of 1] assms(1) by simp
  show ?thesis
    using assms(1) one by (simp add: calibrate_gyro_def s n Let_def)
qed

text \<open>
  The rounding moves a real by at most half a unit in the last place of its binade; the
  values that the statements below need are computed from the definition.
\<close>

lemma round_half_even_error: "\<bar>real_of_int (round_half_even r) - r\<bar> \<le> 1 / 2"
  unfolding round_half_even_def Let_def
  by (auto simp: abs_le_iff)

lemma round_half_even_of_int: "round_half_even (real_of_int n) = n"
  by (simp add: round_half_even_def)

lemma binary64_nearest_error:
  "\<bar>binary64_nearest r - r\<bar> \<le> 2 powi binary64_exponent r / 2"
proof -
  define u :: real where "u = 2 powi binary64_exponent r"
  define m :: real where "m = real_of_int (round_half_even (\<bar>r\<bar> / u))"
  have u: "0 < u" by (simp add: u_def)
  have "\<bar>m - \<bar>r\<bar> / u\<bar> \<le> 1 / 2"
    unfolding m_def by (rule round_half_even_error)
  then have "\<bar>m - \<bar>r\<bar> / u\<bar> * u \<le> 1 / 2 * u"
    using u by (simp only: mult_le_cancel_right_pos)
  moreover have "\<bar>m - \<bar>r\<bar> / u\<bar> * u = \<bar>m * u - \<bar>r\<bar>\<bar>"
  proof -
    have "m * u - \<bar>r\<bar> = (m - \<bar>r\<bar> / u) * u"
      using u by (simp add: left_diff_distrib)
    then show ?thesis using u by (simp add: abs_mult)
  qed
  ultimately have b: "\<bar>m * u - \<bar>r\<bar>\<bar> \<le> u / 2" by simp
  have "binary64_nearest r - r = sgn r * (m * u - \<bar>r\<bar>)"
    by (simp add: binary64_nearest_def Let_def u_def m_def algebra_simps sgn_real_def)
  then have "\<bar>binary64_nearest r - r\<bar> \<le> \<bar>m * u - \<bar>r\<bar>\<bar>"
    by (simp add: abs_mult sgn_real_def)
  with b show ?thesis by (simp add: u_def)
qed

lemma binary64_nearest_zero: "binary64_nearest 0 = 0"
  by (simp add: binary64_nearest_def)

lemma binary64_nearest_tenth: "binary64_nearest (3602879701896397 / 36028797018963968) = 3602879701896397 / 36028797018963968"
  by code_simp

lemma binary64_nearest_two_tenths: "binary64_nearest (3602879701896397 / 18014398509481984) = 3602879701896397 / 18014398509481984"
  by code_simp

lemma binary64_nearest_three_tenths: "binary64_nearest (10808639105689191 / 36028797018963968) = 1351079888211149 / 4503599627370496"
  by code_simp

lemma binary64_nearest_mean_of_three: "binary64_nearest (1351079888211149 / 13510798882111488) = 7205759403792795 / 72057594037927936"
  by code_simp

lemma processor_update_offset:
  assumes "min_interval q \<le> ticks_diff now_gate (proc_last_update q)"
  shows "processor_update accel gyro now_gate now now_filter q =
     (case filter_update accel
             (Vec3 (vx gyro - vx (gyro_offset q)) (vy gyro - vy (gyro_offset q))
                   (vz gyro - vz (gyro_offset q)))
             (Some (real_of_int (ticks_diff now (proc_last_update q)) / 1000)) now_filter
             (proc_filter q) of
        Inl e \<Rightarrow> Inl e
      | Inr (angles, f') \<Rightarrow> Inr (Some angles, q\<lparr>proc_last_update := now, proc_filter := f'\<rparr>))"
  using assms by (simp add: processor_update_def should_update_def Let_def)

lemma processor_update_gyro_offset:
  assumes "processor_update accel gyro now_gate now now_filter q = Inr (r, q')"
  shows "gyro_offset q' = gyro_offset q"
  using assms
  by (auto simp: processor_update_def should_update_def Let_def split: if_splits sum.splits)

text \<open>
  The rounding to the nearest double obeys the usual model of one rounding error, and
  the double arithmetic, where it does not overflow, is the rounding to the nearest
  double.
\<close>

lemma binary64_nearest_model:
  "\<bar>binary64_nearest r - r\<bar> \<le> unit_roundoff * \<bar>r\<bar> + underflow_unit"
proof -
  define n where "n = \<lfloor>\<bar>r\<bar> * 2 ^ 1074\<rfloor>"
  have e: "binary64_exponent r = max (bitlen n - 1127) (- 1074)"
    by (simp add: binary64_exponent_def n_def)
  have err: "\<bar>binary64_nearest r - r\<bar> \<le> 2 powi binary64_exponent r / 2"
    by (rule binary64_nearest_error)
  show ?thesis
  proof (cases "bitlen n - 1127 \<le> - 1074")
    case True
    then have "binary64_exponent r = - 1074" using e by simp
    then have "2 powi binary64_exponent r / 2 = (underflow_unit :: real)"
      by (simp add: underflow_unit_def power_int_minus field_simps)
    moreover have "0 \<le> unit_roundoff * \<bar>r\<bar>" by (simp add: unit_roundoff_def)
    ultimately show ?thesis using err by linarith
  next
    case False
    then have big: "53 < bitlen n" and ex: "binary64_exponent r = bitlen n - 1127"
      using e by simp_all
    have npos: "0 < n"
    proof (rule ccontr)
      assume "\<not> 0 < n"
      then have "bitlen n = 0" by (simp add: bitlen_def floorlog_def)
      with big show False by simp
    qed
    have "2 ^ nat (bitlen n - 1) \<le> n" using bitlen_bounds [OF npos] by simp
    then have "real_of_int (2 ^ nat (bitlen n - 1)) \<le> real_of_int n"
      by (simp only: of_int_le_iff)
    then have a: "(2::real) ^ nat (bitlen n - 1) \<le> real_of_int n" by simp
    have b: "real_of_int n \<le> \<bar>r\<bar> * 2 ^ 1074"
      unfolding n_def by (rule of_int_floor_le)
    have le: "(2::real) ^ nat (bitlen n - 1) \<le> \<bar>r\<bar> * 2 ^ 1074"
      by (rule order_trans [OF a b])
    define k where "k = nat (bitlen n - 1)"
    have kk: "bitlen n - 1127 = int k + (- 1126)" using big by (simp add: k_def)
    have "(2::real) powi (int k + (- 1126)) = 2 powi int k * 2 powi (- 1126)"
      by (rule power_int_add) simp
    then have "(2::real) powi (bitlen n - 1127) = 2 ^ nat (bitlen n - 1) * 2 powi (- 1126)"
      by (simp only: kk power_int_of_nat k_def)
    also have "\<dots> \<le> (\<bar>r\<bar> * 2 ^ 1074) * 2 powi (- 1126)"
      using le by (rule mult_right_mono) simp
    also have "\<dots> = \<bar>r\<bar> * (2 ^ 1074 * 2 powi (- 1126))" by simp
    also have "(2::real) ^ 1074 * 2 powi (- 1126) = 2 * unit_roundoff"
      by (simp add: unit_roundoff_def power_int_minus field_simps)
    finally have "2 powi binary64_exponent r / 2 \<le> unit_roundoff * \<bar>r\<bar>"
      by (simp add: ex mult_ac)
    moreover have "0 \<le> underflow_unit" by (simp add: underflow_unit_def)
    ultimately show ?thesis using err by linarith
  qed
qed

lemma round_binary64_zero: "round_binary64 0 = Some 0"
  by (simp add: round_binary64_def binary64_nearest_zero)

lemma round_binary64_tenth:
  "round_binary64 (3602879701896397 / 36028797018963968) = Some (3602879701896397 / 36028797018963968)"
  by (simp add: round_binary64_def binary64_nearest_tenth)

lemma round_binary64_two_tenths:
  "round_binary64 (3602879701896397 / 18014398509481984) = Some (3602879701896397 / 18014398509481984)"
  by (simp add: round_binary64_def binary64_nearest_two_tenths)

lemma round_binary64_three_tenths:
  "round_binary64 (10808639105689191 / 36028797018963968) = Some (1351079888211149 / 4503599627370496)"
  by (simp add: round_binary64_def binary64_nearest_three_tenths)

lemma round_binary64_mean_of_three:
  "round_binary64 (1351079888211149 / 13510798882111488) = Some (7205759403792795 / 72057594037927936)"
  by (simp add: round_binary64_def binary64_nearest_mean_of_three)

lemma sum_three_tenths:
  "sum_samples_binary64
     (\<lambda>k. Vec3 (3602879701896397 / 36028797018963968) (3602879701896397 / 36028797018963968)
              (3602879701896397 / 36028797018963968)) 3 =
   Some (Vec3 (1351079888211149 / 4503599627370496) (1351079888211149 / 4503599627370496)
              (1351079888211149 / 4503599627370496))"
  by (simp add: eval_nat_numeral Let_def round_binary64_tenth round_binary64_two_tenths
      round_binary64_three_tenths)

text \<open>
  The error of the rounded sum of \<open>k\<close> equal terms, and of the rounded mean, for any
  rounding with relative error \<open>u\<close> and absolute error \<open>eta\<close>.
\<close>

lemma sum_error:
  fixes s :: "nat \<Rightarrow> real"
  assumes u: "0 \<le> u" and eta: "0 \<le> eta"
    and fl: "\<And>x. \<bar>fl x - x\<bar> \<le> u * \<bar>x\<bar> + eta"
    and s0: "s 0 = 0" and step: "\<And>k. s (Suc k) = fl (s k + c)"
  shows "\<bar>s k - real k * c\<bar> \<le> real k * ((1 + u) ^ k - 1) * \<bar>c\<bar> + real k * (1 + u) ^ k * eta"
proof (induction k)
  case 0
  then show ?case by (simp add: s0)
next
  case (Suc k)
  define A where "A = real k"
  define C where "C = \<bar>c\<bar>"
  define Q where "Q = (1 + u) ^ k"
  define P where "P = (1 + u) ^ Suc k"
  define e where "e = \<bar>s k - A * c\<bar>"
  define E where "E = A * (Q - 1) * C + A * Q * eta"
  have A: "0 \<le> A" and C: "0 \<le> C" by (simp_all add: A_def C_def)
  have Q1: "1 \<le> Q" unfolding Q_def using u by (intro one_le_power) simp
  have PQ: "P = (1 + u) * Q" by (simp add: P_def Q_def)
  have P1: "1 + u \<le> P"
  proof -
    have "(1 + u) * 1 \<le> (1 + u) * Q" using Q1 u by (intro mult_left_mono) simp_all
    then show ?thesis by (simp add: PQ)
  qed
  have IH: "e \<le> E" using Suc.IH by (simp add: e_def E_def A_def C_def Q_def)
  have "\<bar>s k + c\<bar> \<le> (A + 1) * C + e"
  proof -
    have "s k + c = (A + 1) * c + (s k - A * c)" by (simp add: algebra_simps)
    then have "\<bar>s k + c\<bar> \<le> \<bar>(A + 1) * c\<bar> + \<bar>s k - A * c\<bar>" by (metis abs_triangle_ineq)
    then show ?thesis using A by (simp add: abs_mult C_def e_def)
  qed
  then have "u * \<bar>s k + c\<bar> \<le> u * ((A + 1) * C + e)"
    using u by (rule mult_left_mono)
  moreover have "\<bar>fl (s k + c) - (s k + c)\<bar> \<le> u * \<bar>s k + c\<bar> + eta" by (rule fl)
  moreover have "s (Suc k) - real (Suc k) * c = (fl (s k + c) - (s k + c)) + (s k - A * c)"
    by (simp add: step A_def algebra_simps)
  then have "\<bar>s (Suc k) - real (Suc k) * c\<bar> \<le> \<bar>fl (s k + c) - (s k + c)\<bar> + e"
    unfolding e_def by (metis abs_triangle_ineq)
  ultimately have T: "\<bar>s (Suc k) - real (Suc k) * c\<bar> \<le> u * ((A + 1) * C + e) + eta + e"
    by linarith
  have "(1 + u) * e \<le> (1 + u) * E" using IH u by (intro mult_left_mono) simp_all
  then have T2: "\<bar>s (Suc k) - real (Suc k) * c\<bar> \<le> u * (A + 1) * C + (1 + u) * E + eta"
    using T by (simp add: algebra_simps)
  have "(A + 1) * (P - 1) * C + (A + 1) * P * eta - (u * (A + 1) * C + (1 + u) * E + eta)
      = (P - 1 - u) * C + (P - 1) * eta"
    by (simp add: E_def PQ algebra_simps)
  moreover have "0 \<le> (P - 1 - u) * C" using P1 C by (intro mult_nonneg_nonneg) simp_all
  moreover have "0 \<le> (P - 1) * eta" using P1 u eta by (intro mult_nonneg_nonneg) simp_all
  ultimately have "u * (A + 1) * C + (1 + u) * E + eta \<le> (A + 1) * (P - 1) * C + (A + 1) * P * eta"
    by linarith
  with T2 have "\<bar>s (Suc k) - real (Suc k) * c\<bar> \<le> (A + 1) * (P - 1) * C + (A + 1) * P * eta"
    by linarith
  then show ?case by (simp add: A_def P_def C_def add.commute)
qed

lemma mean_error:
  fixes s :: "nat \<Rightarrow> real"
  assumes u: "0 \<le> u" and eta: "0 \<le> eta"
    and fl: "\<And>x. \<bar>fl x - x\<bar> \<le> u * \<bar>x\<bar> + eta"
    and s0: "s 0 = 0" and step: "\<And>k. s (Suc k) = fl (s k + c)"
    and n: "0 < n"
  shows "\<bar>fl (s n / real n) - c\<bar> \<le> mean_error_bound u eta n c"
proof -
  define N where "N = real n"
  define C where "C = \<bar>c\<bar>"
  define Q where "Q = (1 + u) ^ n"
  define P where "P = (1 + u) ^ (n + 1)"
  define d where "d = \<bar>s n / N - c\<bar>"
  have N: "0 < N" using n by (simp add: N_def)
  have C: "0 \<le> C" by (simp add: C_def)
  have PQ: "P = (1 + u) * Q" by (simp add: P_def Q_def)
  have "\<bar>s n - N * c\<bar> \<le> N * (Q - 1) * C + N * Q * eta"
    using sum_error [OF u eta fl s0 step, of n] by (simp add: N_def C_def Q_def)
  then have "\<bar>s n - N * c\<bar> / N \<le> (N * (Q - 1) * C + N * Q * eta) / N"
    using N by (simp add: divide_right_mono)
  moreover have "\<bar>s n - N * c\<bar> / N = d"
  proof -
    have "s n / N - c = (s n - N * c) / N" using N by (simp add: field_simps)
    then show ?thesis using N by (simp add: d_def)
  qed
  moreover have "(N * (Q - 1) * C + N * Q * eta) / N = (Q - 1) * C + Q * eta"
    using N by (simp add: field_simps)
  ultimately have d: "d \<le> (Q - 1) * C + Q * eta" by simp
  have "\<bar>s n / N\<bar> \<le> C + d"
  proof -
    have "s n / N = c + (s n / N - c)" by simp
    then have "\<bar>s n / N\<bar> \<le> \<bar>c\<bar> + \<bar>s n / N - c\<bar>" by (metis abs_triangle_ineq)
    then show ?thesis by (simp add: C_def d_def)
  qed
  then have "u * \<bar>s n / N\<bar> \<le> u * (C + d)" using u by (rule mult_left_mono)
  moreover have "\<bar>fl (s n / N) - s n / N\<bar> \<le> u * \<bar>s n / N\<bar> + eta" by (rule fl)
  moreover have "fl (s n / N) - c = (fl (s n / N) - s n / N) + (s n / N - c)" by simp
  then have "\<bar>fl (s n / N) - c\<bar> \<le> \<bar>fl (s n / N) - s n / N\<bar> + d"
    unfolding d_def by (metis abs_triangle_ineq)
  ultimately have T: "\<bar>fl (s n / N) - c\<bar> \<le> u * C + (1 + u) * d + eta"
    by (simp add: algebra_simps)
  have "(1 + u) * d \<le> (1 + u) * ((Q - 1) * C + Q * eta)"
    using d u by (intro mult_left_mono) simp_all
  moreover have "u * C + (1 + u) * ((Q - 1) * C + Q * eta) + eta = (P - 1) * C + (P + 1) * eta"
    by (simp add: PQ algebra_simps)
  ultimately have "\<bar>fl (s n / N) - c\<bar> \<le> (P - 1) * C + (P + 1) * eta"
    using T by linarith
  then show ?thesis by (simp add: mean_error_bound_def N_def P_def C_def)
qed

lemma calibrate_gyro_error:
  assumes u: "0 \<le> u" and eta: "0 \<le> eta"
    and fl: "\<And>x. \<bar>fl x - x\<bar> \<le> u * \<bar>x\<bar> + eta"
    and n: "1 \<le> samples"
  shows "\<exists>offset. calibrate_gyro fl (\<lambda>k. b) samples p = Inr (offset, p\<lparr>gyro_offset := offset\<rparr>)
     \<and> \<bar>vx offset - vx b\<bar> \<le> mean_error_bound u eta (nat samples) (vx b)
     \<and> \<bar>vy offset - vy b\<bar> \<le> mean_error_bound u eta (nat samples) (vy b)
     \<and> \<bar>vz offset - vz b\<bar> \<le> mean_error_bound u eta (nat samples) (vz b)"
proof -
  have pos: "0 < nat samples" and r: "real_of_int samples = real (nat samples)"
    using n by simp_all
  have x: "\<bar>fl (vx (sum_samples fl (\<lambda>k. b) (nat samples)) / real (nat samples)) - vx b\<bar>
      \<le> mean_error_bound u eta (nat samples) (vx b)"
    by (rule mean_error [OF u eta fl _ _ pos]) (simp_all add: Let_def)
  have y: "\<bar>fl (vy (sum_samples fl (\<lambda>k. b) (nat samples)) / real (nat samples)) - vy b\<bar>
      \<le> mean_error_bound u eta (nat samples) (vy b)"
    by (rule mean_error [OF u eta fl _ _ pos]) (simp_all add: Let_def)
  have z: "\<bar>fl (vz (sum_samples fl (\<lambda>k. b) (nat samples)) / real (nat samples)) - vz b\<bar>
      \<le> mean_error_bound u eta (nat samples) (vz b)"
    by (rule mean_error [OF u eta fl _ _ pos]) (simp_all add: Let_def)
  show ?thesis
    using n x y z unfolding calibrate_gyro_def Let_def r by simp
qed

lemma sum_samples_binary64_Some:
  "sum_samples_binary64 src k = Some s \<Longrightarrow> s = sum_samples binary64_nearest src k"
proof (induction k arbitrary: s)
  case 0
  then show ?case by simp
next
  case (Suc k)
  then show ?case
    by (auto simp: Let_def round_binary64_def split: option.splits if_splits)
qed

lemma calibrate_gyro_binary64_Some:
  "calibrate_gyro_binary64 src samples p = Some r \<Longrightarrow>
   r = calibrate_gyro binary64_nearest src samples p"
  by (auto simp: calibrate_gyro_binary64_def calibrate_gyro_def Let_def round_binary64_def
      dest!: sum_samples_binary64_Some split: option.splits if_splits)

lemma sum_samples_binary64_exact:
  assumes "\<And>k. k \<le> n \<Longrightarrow>
      round_binary64 (real k * vx b) = Some (real k * vx b)
      \<and> round_binary64 (real k * vy b) = Some (real k * vy b)
      \<and> round_binary64 (real k * vz b) = Some (real k * vz b)"
    and "m \<le> n"
  shows "sum_samples_binary64 (\<lambda>k. b) m = Some (Vec3 (real m * vx b) (real m * vy b) (real m * vz b))"
  using assms(2)
proof (induction m)
  case 0
  then show ?case by simp
next
  case (Suc m)
  then have IH: "sum_samples_binary64 (\<lambda>k. b) m =
      Some (Vec3 (real m * vx b) (real m * vy b) (real m * vz b))"
    by simp
  have e: "real m * c + c = real (Suc m) * c" for c :: real
    by (simp add: algebra_simps)
  from assms(1) [OF Suc.prems] show ?case
    by (simp add: IH Let_def e del: of_nat_Suc)
qed

lemma calibrate_gyro_binary64_exact:
  assumes "1 \<le> samples" and "samples \<le> 2 ^ 53"
    and "\<And>k. k \<le> nat samples \<Longrightarrow>
      round_binary64 (real k * vx b) = Some (real k * vx b)
      \<and> round_binary64 (real k * vy b) = Some (real k * vy b)
      \<and> round_binary64 (real k * vz b) = Some (real k * vz b)"
  shows "calibrate_gyro_binary64 (\<lambda>k. b) samples p = Some (Inr (b, p\<lparr>gyro_offset := b\<rparr>))"
proof -
  have s: "sum_samples_binary64 (\<lambda>k. b) (nat samples) =
      Some (Vec3 (real (nat samples) * vx b) (real (nat samples) * vy b)
                 (real (nat samples) * vz b))"
    using sum_samples_binary64_exact [of "nat samples" b "nat samples"] assms(3) by simp
  have n: "real (nat samples) = real_of_int samples" "real_of_int samples \<noteq> 0"
    using assms(1) by simp_all
  have one: "round_binary64 (vx b) = Some (vx b) \<and> round_binary64 (vy b) = Some (vy b)
      \<and> round_binary64 (vz b) = Some (vz b)"
    using assms(3) [of 1] assms(1) by simp
  show ?thesis
    using assms(1) assms(2) one by (simp add: calibrate_gyro_binary64_def s n)
qed

lemma calibrate_gyro_binary64_error:
  assumes "1 \<le> samples" and "calibrate_gyro_binary64 (\<lambda>k. b) samples p = Some r"
  shows "\<exists>offset. r = Inr (offset, p\<lparr>gyro_offset := offset\<rparr>)
     \<and> \<bar>vx offset - vx b\<bar> \<le> mean_error_bound unit_roundoff underflow_unit (nat samples) (vx b)
     \<and> \<bar>vy offset - vy b\<bar> \<le> mean_error_bound unit_roundoff underflow_unit (nat samples) (vy b)
     \<and> \<bar>vz offset - vz b\<bar> \<le> mean_error_bound unit_roundoff underflow_unit (nat samples) (vz b)"
proof -
  have u: "0 \<le> unit_roundoff" and eta: "0 \<le> underflow_unit"
    by (simp_all add: unit_roundoff_def underflow_unit_def)
  from calibrate_gyro_error [OF u eta binary64_nearest_model assms(1), of b p]
    calibrate_gyro_binary64_Some [OF assms(2)]
  show ?thesis by simp
qed

lemma calibrate_gyro_replaces:
  assumes "1 \<le> samples"
  shows "\<exists>offset. \<forall>previous.
     calibrate_gyro fl read_gyro_func samples (p\<lparr>gyro_offset := previous\<rparr>)
       = Inr (offset, p\<lparr>gyro_offset := offset\<rparr>)"
  using assms by (simp add: calibrate_gyro_def Let_def)

text \<open>No operation overflows on up to \<open>2^52\<close> samples of moderate size.\<close>

lemma exp_half_le_2: "exp (1 / 2) \<le> (2::real)"
proof -
  have "(exp (1 / 2 :: real))\<^sup>2 = exp 1"
    by (simp add: power2_eq_square flip: exp_add)
  also have "\<dots> \<le> 3" by (rule exp_le)
  also have "\<dots> \<le> (2::real)\<^sup>2" by simp
  finally show ?thesis by (rule power2_le_imp_le) simp
qed

lemma roundoff_power_le_2:
  assumes "real n \<le> 2 ^ 52"
  shows "(1 + unit_roundoff) ^ n \<le> 2"
proof -
  have "(1 + unit_roundoff) ^ n \<le> exp unit_roundoff ^ n"
    by (rule power_mono [OF exp_ge_add_one_self]) (simp add: unit_roundoff_def)
  also have "\<dots> = exp (real n * unit_roundoff)" by (simp add: exp_of_nat_mult)
  also have "\<dots> \<le> exp (1 / 2)"
  proof -
    have "real n * unit_roundoff \<le> 2 ^ 52 * unit_roundoff"
      using assms by (rule mult_right_mono) (simp add: unit_roundoff_def)
    also have "\<dots> = 1 / 2" by (simp add: unit_roundoff_def)
    finally show ?thesis by simp
  qed
  also have "\<dots> \<le> 2" by (rule exp_half_le_2)
  finally show ?thesis .
qed

lemma sum_magnitude:
  fixes s :: "nat \<Rightarrow> real"
  assumes s0: "s 0 = 0" and step: "\<And>k. s (Suc k) = binary64_nearest (s k + c)"
    and k: "k \<le> n" and n: "real n \<le> 2 ^ 52" and c: "\<bar>c\<bar> * real n \<le> 2 ^ 1000"
  shows "\<bar>s k\<bar> < 2 ^ 1024"
proof -
  define u where "u = unit_roundoff"
  define eta where "eta = underflow_unit"
  define Q where "Q = (1 + u) ^ k"
  have u: "0 \<le> u" and eta: "0 \<le> eta" and eta1: "eta \<le> 1 / 2 ^ 52"
    by (simp_all add: u_def eta_def unit_roundoff_def underflow_unit_def)
  have kn: "real k \<le> real n" using k by simp
  have Q2: "Q \<le> 2" and Q0: "0 \<le> Q"
    unfolding Q_def u_def using roundoff_power_le_2 [of k] kn n
    by (simp_all add: unit_roundoff_def)
  have err: "\<bar>s k - real k * c\<bar> \<le> real k * (Q - 1) * \<bar>c\<bar> + real k * Q * eta"
    unfolding Q_def u_def eta_def
    by (rule sum_error [OF _ _ binary64_nearest_model s0 step])
      (simp_all add: unit_roundoff_def underflow_unit_def)
  have "\<bar>s k\<bar> \<le> \<bar>real k * c\<bar> + \<bar>s k - real k * c\<bar>"
    by (metis abs_triangle_ineq add.commute add_diff_cancel_left' diff_add_cancel)
  then have "\<bar>s k\<bar> \<le> real k * \<bar>c\<bar> + (real k * (Q - 1) * \<bar>c\<bar> + real k * Q * eta)"
    using err by (simp add: abs_mult)
  also have "\<dots> = Q * (real k * \<bar>c\<bar> + real k * eta)" by (simp add: algebra_simps)
  also have "\<dots> \<le> 2 * (real k * \<bar>c\<bar> + real k * eta)"
    using Q2 eta by (intro mult_right_mono) simp_all
  also have "\<dots> \<le> 2 * (2 ^ 1000 + 1)"
  proof -
    have "real k * \<bar>c\<bar> \<le> real n * \<bar>c\<bar>" using kn by (rule mult_right_mono) simp
    then have a: "real k * \<bar>c\<bar> \<le> 2 ^ 1000" using c by (simp add: mult.commute)
    have "real k * eta \<le> 2 ^ 52 * (1 / 2 ^ 52)"
      using kn n eta eta1 by (intro mult_mono) simp_all
    then have b: "real k * eta \<le> 1" by simp
    show ?thesis using a b by (intro mult_left_mono add_mono) simp_all
  qed
  also have "\<dots> < (2::real) ^ 1024" by simp
  finally show ?thesis .
qed

lemma mean_magnitude:
  fixes s :: "nat \<Rightarrow> real"
  assumes s0: "s 0 = 0" and step: "\<And>k. s (Suc k) = binary64_nearest (s k + c)"
    and pos: "0 < n" and n: "real n \<le> 2 ^ 52" and c: "\<bar>c\<bar> * real n \<le> 2 ^ 1000"
  shows "\<bar>binary64_nearest (s n / real n)\<bar> < 2 ^ 1024"
proof -
  define u where "u = unit_roundoff"
  define eta where "eta = underflow_unit"
  define P where "P = (1 + u) ^ (n + 1)"
  have u: "0 \<le> u" and u1: "u \<le> 1 / 2" and eta: "0 \<le> eta" and eta1: "eta \<le> 1"
    by (simp_all add: u_def eta_def unit_roundoff_def underflow_unit_def)
  have "(1 + u) ^ n \<le> 2" unfolding u_def by (rule roundoff_power_le_2 [OF n])
  then have "(1 + u) * (1 + u) ^ n \<le> (1 + 1 / 2) * 2"
    using u u1 by (intro mult_mono) simp_all
  then have P3: "P \<le> 3" by (simp add: P_def)
  have P0: "0 \<le> P" unfolding P_def using u by simp
  have c1: "\<bar>c\<bar> \<le> 2 ^ 1000"
  proof -
    have "\<bar>c\<bar> * 1 \<le> \<bar>c\<bar> * real n" using pos by (intro mult_left_mono) simp_all
    with c show ?thesis by simp
  qed
  have "\<bar>binary64_nearest (s n / real n) - c\<bar> \<le> mean_error_bound u eta n c"
    unfolding u_def eta_def
    by (rule mean_error [OF _ _ binary64_nearest_model s0 step pos])
      (simp_all add: unit_roundoff_def underflow_unit_def)
  then have "\<bar>binary64_nearest (s n / real n) - c\<bar> \<le> (P - 1) * \<bar>c\<bar> + (P + 1) * eta"
    by (simp add: mean_error_bound_def P_def)
  moreover have "\<bar>binary64_nearest (s n / real n)\<bar>
      \<le> \<bar>c\<bar> + \<bar>binary64_nearest (s n / real n) - c\<bar>"
    by (metis abs_triangle_ineq add_diff_cancel_left' diff_add_cancel add.commute)
  ultimately have "\<bar>binary64_nearest (s n / real n)\<bar> \<le> P * \<bar>c\<bar> + (P + 1) * eta"
    by (simp add: algebra_simps)
  also have "\<dots> \<le> 3 * 2 ^ 1000 + 4 * 1"
  proof -
    have "P * \<bar>c\<bar> \<le> 3 * 2 ^ 1000" using P3 P0 c1 by (intro mult_mono) simp_all
    moreover have "(P + 1) * eta \<le> 4 * 1" using P3 P0 eta eta1 by (intro mult_mono) simp_all
    ultimately show ?thesis by (rule add_mono)
  qed
  also have "\<dots> < (2::real) ^ 1024" by simp
  finally show ?thesis .
qed

lemma sum_samples_binary64_finite:
  assumes n: "real n \<le> 2 ^ 52"
    and cx: "\<bar>vx b\<bar> * real n \<le> 2 ^ 1000" and cy: "\<bar>vy b\<bar> * real n \<le> 2 ^ 1000"
    and cz: "\<bar>vz b\<bar> * real n \<le> 2 ^ 1000"
    and k: "k \<le> n"
  shows "sum_samples_binary64 (\<lambda>k. b) k = Some (sum_samples binary64_nearest (\<lambda>k. b) k)"
  using k
proof (induction k)
  case 0
  then show ?case by simp
next
  case (Suc k)
  then have IH: "sum_samples_binary64 (\<lambda>k. b) k = Some (sum_samples binary64_nearest (\<lambda>k. b) k)"
    by simp
  let ?s = "sum_samples binary64_nearest (\<lambda>k. b)"
  have x: "\<bar>vx (?s (Suc k))\<bar> < 2 ^ 1024"
    by (rule sum_magnitude [OF _ _ Suc.prems n cx]) (simp_all add: Let_def)
  have y: "\<bar>vy (?s (Suc k))\<bar> < 2 ^ 1024"
    by (rule sum_magnitude [OF _ _ Suc.prems n cy]) (simp_all add: Let_def)
  have z: "\<bar>vz (?s (Suc k))\<bar> < 2 ^ 1024"
    by (rule sum_magnitude [OF _ _ Suc.prems n cz]) (simp_all add: Let_def)
  show ?case
    using x y z by (simp add: IH Let_def round_binary64_def)
qed

lemma calibrate_gyro_binary64_finite:
  assumes "1 \<le> samples" and "samples \<le> 2 ^ 52"
    and "\<bar>vx b\<bar> * real_of_int samples \<le> 2 ^ 1000"
    and "\<bar>vy b\<bar> * real_of_int samples \<le> 2 ^ 1000"
    and "\<bar>vz b\<bar> * real_of_int samples \<le> 2 ^ 1000"
  shows "\<exists>r. calibrate_gyro_binary64 (\<lambda>k. b) samples p = Some r"
proof -
  define n where "n = nat samples"
  have pos: "0 < n" and r: "real_of_int samples = real n"
    using assms(1) by (simp_all add: n_def)
  have "real_of_int samples \<le> real_of_int (2 ^ 52)" using assms(2) by (simp only: of_int_le_iff)
  then have n: "real n \<le> 2 ^ 52" by (simp add: r)
  have cx: "\<bar>vx b\<bar> * real n \<le> 2 ^ 1000" and cy: "\<bar>vy b\<bar> * real n \<le> 2 ^ 1000"
    and cz: "\<bar>vz b\<bar> * real n \<le> 2 ^ 1000"
    using assms(3-5) by (simp_all add: r)
  let ?s = "sum_samples binary64_nearest (\<lambda>k. b)"
  have s: "sum_samples_binary64 (\<lambda>k. b) n = Some (?s n)"
    by (rule sum_samples_binary64_finite [OF n cx cy cz]) simp
  have x: "\<bar>binary64_nearest (vx (?s n) / real n)\<bar> < 2 ^ 1024"
    by (rule mean_magnitude [OF _ _ pos n cx]) (simp_all add: Let_def)
  have y: "\<bar>binary64_nearest (vy (?s n) / real n)\<bar> < 2 ^ 1024"
    by (rule mean_magnitude [OF _ _ pos n cy]) (simp_all add: Let_def)
  have z: "\<bar>binary64_nearest (vz (?s n) / real n)\<bar> < 2 ^ 1024"
    by (rule mean_magnitude [OF _ _ pos n cz]) (simp_all add: Let_def)
  have "samples \<noteq> 0" using assms(1) by simp
  moreover have "\<not> 2 ^ 53 < \<bar>samples\<bar>" using assms(1) assms(2) by simp
  ultimately show ?thesis
    using x y z s unfolding calibrate_gyro_binary64_def n_def [symmetric] r
    by (simp only: if_False if_True round_binary64_def Let_def option.case sum.case) simp
qed

text \<open>
  Claim C6 reads: with a sample source that returns the same vector on every call and a
  sample count \<open>\<ge> 1\<close>, \<^verbatim>\<open>calibrate_gyro\<close> sets the offset to exactly that vector. In
  the arithmetic of doubles it does not: for the double nearest to 0.1 on each axis and
  three samples, no operation overflows, the sum \<^verbatim>\<open>0.1 + 0.1 + 0.1\<close> rounds to
  \<^verbatim>\<open>0.30000000000000004\<close> and its third to \<^verbatim>\<open>0.10000000000000002\<close>, the double after
  the one the source returns.
\<close>

theorem calibrate_gyro_mean_rounds:
  "calibrate_gyro_binary64
     (\<lambda>k. Vec3 (3602879701896397 / 36028797018963968) (3602879701896397 / 36028797018963968)
              (3602879701896397 / 36028797018963968)) 3 default_processor =
   Some (Inr (Vec3 (7205759403792795 / 72057594037927936) (7205759403792795 / 72057594037927936)
                   (7205759403792795 / 72057594037927936),
              default_processor\<lparr>gyro_offset :=
                Vec3 (7205759403792795 / 72057594037927936) (7205759403792795 / 72057594037927936)
                     (7205759403792795 / 72057594037927936)\<rparr>))
   \<and> round_binary64 (3602879701896397 / 36028797018963968)
       = Some (3602879701896397 / 36028797018963968)
   \<and> (7205759403792795 / 72057594037927936 :: real) \<noteq> 3602879701896397 / 36028797018963968"
  by (simp add: calibrate_gyro_binary64_def sum_three_tenths round_binary64_tenth
      round_binary64_mean_of_three)

text \<open>
  Claim C6, amended. Let the sample source return the same vector \<open>b\<close> on every call and
  the sample count \<open>n\<close> be \<open>\<ge> 1\<close>.
  \<^item> In every arithmetic, for every source, \<^verbatim>\<open>calibrate_gyro\<close> replaces \<open>gyro_offset\<close> by
    a vector that does not depend on the offset stored before.
  \<^item> In exact arithmetic the new offset is exactly \<open>b\<close>.
  \<^item> In the arithmetic of doubles, whenever no operation overflows and \<open>n \<le> 2^53\<close>
    (so that the count is a double), each component of
    the new offset differs from the component \<open>c\<close> of \<open>b\<close> by at most
    \<open>((1 + u)^(n+1) - 1) * |c| + ((1 + u)^(n+1) + 1) * eta\<close> with \<open>u = 2^-53\<close> and
    \<open>eta = 2^-1075\<close>; and no operation overflows when \<open>n \<le> 2^52\<close> and
    \<open>|c| * n \<le> 2^1000\<close> on each axis.
  \<^item> In the arithmetic of doubles the new offset is exactly \<open>b\<close> when \<open>n \<le> 2^53\<close> and
    every multiple \<open>k * c\<close>, \<open>k \<le> n\<close>, of each component is a double (two samples of
    the double 0.1, for one).
  \<^item> Every accepted \<^verbatim>\<open>update\<close> of the processor hands to the filter the reading of the
    gyroscope minus the stored offset, component by component, and no \<^verbatim>\<open>update\<close>
    changes the stored offset.
\<close>

theorem calibrate_gyro_mean:
  "(1 \<le> samples \<longrightarrow>
      (\<exists>offset. \<forall>previous.
         calibrate_gyro fl read_gyro_func samples (p\<lparr>gyro_offset := previous\<rparr>)
           = Inr (offset, p\<lparr>gyro_offset := offset\<rparr>)))
   \<and> (1 \<le> samples \<longrightarrow>
        calibrate_gyro (\<lambda>r. r) (\<lambda>k. b) samples p = Inr (b, p\<lparr>gyro_offset := b\<rparr>))
   \<and> (1 \<le> samples \<and> samples \<le> 2 ^ 52
        \<and> \<bar>vx b\<bar> * real_of_int samples \<le> 2 ^ 1000
        \<and> \<bar>vy b\<bar> * real_of_int samples \<le> 2 ^ 1000
        \<and> \<bar>vz b\<bar> * real_of_int samples \<le> 2 ^ 1000 \<longrightarrow>
        (\<exists>offset.
           calibrate_gyro_binary64 (\<lambda>k. b) samples p = Some (Inr (offset, p\<lparr>gyro_offset := offset\<rparr>))
           \<and> \<bar>vx offset - vx b\<bar> \<le> mean_error_bound unit_roundoff underflow_unit (nat samples) (vx b)
           \<and> \<bar>vy offset - vy b\<bar> \<le> mean_error_bound unit_roundoff underflow_unit (nat samples) (vy b)
           \<and> \<bar>vz offset - vz b\<bar> \<le> mean_error_bound unit_roundoff underflow_unit (nat samples) (vz b)))
   \<and> (1 \<le> samples \<longrightarrow>
        (\<forall>r. calibrate_gyro_binary64 (\<lambda>k. b) samples p = Some r \<longrightarrow>
           (\<exists>offset. r = Inr (offset, p\<lparr>gyro_offset := offset\<rparr>)
              \<and> \<bar>vx offset - vx b\<bar> \<le> mean_error_bound unit_roundoff underflow_unit (nat samples) (vx b)
              \<and> \<bar>vy offset - vy b\<bar> \<le> mean_error_bound unit_roundoff underflow_unit (nat samples) (vy b)
              \<and> \<bar>vz offset - vz b\<bar> \<le> mean_error_bound unit_roundoff underflow_unit (nat samples) (vz b))))
   \<and> (1 \<le> samples \<and> samples \<le> 2 ^ 53
        \<and> (\<forall>k. k \<le> nat samples \<longrightarrow>
              round_binary64 (real k * vx b) = Some (real k * vx b)
              \<and> round_binary64 (real k * vy b) = Some (real k * vy b)
              \<and> round_binary64 (real k * vz b) = Some (real k * vz b)) \<longrightarrow>
        calibrate_gyro_binary64 (\<lambda>k. b) samples p = Some (Inr (b, p\<lparr>gyro_offset := b\<rparr>)))
   \<and> (min_interval q \<le> ticks_diff now_gate (proc_last_update q) \<longrightarrow>
        processor_update accel gyro now_gate now now_filter q =
          (case filter_update accel
                  (Vec3 (vx gyro - vx (gyro_offset q)) (vy gyro - vy (gyro_offset q))
                        (vz gyro - vz (gyro_offset q)))
                  (Some (real_of_int (ticks_diff now (proc_last_update q)) / 1000)) now_filter
                  (proc_filter q) of
             Inl e \<Rightarrow> Inl e
           | Inr (angles, f') \<Rightarrow>
               Inr (Some angles, q\<lparr>proc_last_update := now, proc_filter := f'\<rparr>)))
   \<and> (\<forall>r q'. processor_update accel gyro now_gate now now_filter q = Inr (r, q') \<longrightarrow>
         gyro_offset q' = gyro_offset q)"
proof -
  have replaces: "1 \<le> samples \<longrightarrow>
      (\<exists>offset. \<forall>previous.
         calibrate_gyro fl read_gyro_func samples (p\<lparr>gyro_offset := previous\<rparr>)
           = Inr (offset, p\<lparr>gyro_offset := offset\<rparr>))"
    using calibrate_gyro_replaces by blast
  have ideal: "1 \<le> samples \<longrightarrow>
        calibrate_gyro (\<lambda>r. r) (\<lambda>k. b) samples p = Inr (b, p\<lparr>gyro_offset := b\<rparr>)"
    using calibrate_gyro_exact [of samples "\<lambda>r. r" b p] by simp
  have bound: "1 \<le> samples \<longrightarrow>
        (\<forall>r. calibrate_gyro_binary64 (\<lambda>k. b) samples p = Some r \<longrightarrow>
           (\<exists>offset. r = Inr (offset, p\<lparr>gyro_offset := offset\<rparr>)
              \<and> \<bar>vx offset - vx b\<bar> \<le> mean_error_bound unit_roundoff underflow_unit (nat samples) (vx b)
              \<and> \<bar>vy offset - vy b\<bar> \<le> mean_error_bound unit_roundoff underflow_unit (nat samples) (vy b)
              \<and> \<bar>vz offset - vz b\<bar> \<le> mean_error_bound unit_roundoff underflow_unit (nat samples) (vz b)))"
    using calibrate_gyro_binary64_error by blast
  have finite: "1 \<le> samples \<and> samples \<le> 2 ^ 52
        \<and> \<bar>vx b\<bar> * real_of_int samples \<le> 2 ^ 1000
        \<and> \<bar>vy b\<bar> * real_of_int samples \<le> 2 ^ 1000
        \<and> \<bar>vz b\<bar> * real_of_int samples \<le> 2 ^ 1000 \<longrightarrow>
        (\<exists>offset.
           calibrate_gyro_binary64 (\<lambda>k. b) samples p = Some (Inr (offset, p\<lparr>gyro_offset := offset\<rparr>))
           \<and> \<bar>vx offset - vx b\<bar> \<le> mean_error_bound unit_roundoff underflow_unit (nat samples) (vx b)
           \<and> \<bar>vy offset - vy b\<bar> \<le> mean_error_bound unit_roundoff underflow_unit (nat samples) (vy b)
           \<and> \<bar>vz offset - vz b\<bar> \<le> mean_error_bound unit_roundoff underflow_unit (nat samples) (vz b))"
  proof (intro impI)
    assume h: "1 \<le> samples \<and> samples \<le> 2 ^ 52
        \<and> \<bar>vx b\<bar> * real_of_int samples \<le> 2 ^ 1000
        \<and> \<bar>vy b\<bar> * real_of_int samples \<le> 2 ^ 1000
        \<and> \<bar>vz b\<bar> * real_of_int samples \<le> 2 ^ 1000"
    then obtain r where r: "calibrate_gyro_binary64 (\<lambda>k. b) samples p = Some r"
      using calibrate_gyro_binary64_finite [of samples b p] by blast
    from h calibrate_gyro_binary64_error [OF _ r] r
    show "\<exists>offset.
           calibrate_gyro_binary64 (\<lambda>k. b) samples p = Some (Inr (offset, p\<lparr>gyro_offset := offset\<rparr>))
           \<and> \<bar>vx offset - vx b\<bar> \<le> mean_error_bound unit_roundoff underflow_unit (nat samples) (vx b)
           \<and> \<bar>vy offset - vy b\<bar> \<le> mean_error_bound unit_roundoff underflow_unit (nat samples) (vy b)
           \<and> \<bar>vz offset - vz b\<bar> \<le> mean_error_bound unit_roundoff underflow_unit (nat samples) (vz b)"
      by auto
  qed
  have exact: "1 \<le> samples \<and> samples \<le> 2 ^ 53
        \<and> (\<forall>k. k \<le> nat samples \<longrightarrow>
              round_binary64 (real k * vx b) = Some (real k * vx b)
              \<and> round_binary64 (real k * vy b) = Some (real k * vy b)
              \<and> round_binary64 (real k * vz b) = Some (real k * vz b)) \<longrightarrow>
        calibrate_gyro_binary64 (\<lambda>k. b) samples p = Some (Inr (b, p\<lparr>gyro_offset := b\<rparr>))"
    using calibrate_gyro_binary64_exact [of samples b p] by blast
  have upd: "min_interval q \<le> ticks_diff now_gate (proc_last_update q) \<longrightarrow>
        processor_update accel gyro now_gate now now_filter q =
          (case filter_update accel
                  (Vec3 (vx gyro - vx (gyro_offset q)) (vy gyro - vy (gyro_offset q))
                        (vz gyro - vz (gyro_offset q)))
                  (Some (real_of_int (ticks_diff now (proc_last_update q)) / 1000)) now_filter
                  (proc_filter q) of
             Inl e \<Rightarrow> Inl e
           | Inr (angles, f') \<Rightarrow>
               Inr (Some angles, q\<lparr>proc_last_update := now, proc_filter := f'\<rparr>))"
    using processor_update_offset by blast
  have keep: "\<forall>r q'. processor_update accel gyro now_gate now now_filter q = Inr (r, q') \<longrightarrow>
         gyro_offset q' = gyro_offset q"
    using processor_update_gyro_offset by blast
  show ?thesis
    using replaces ideal finite bound exact upd keep by blast
qed

theorem calibrate_gyro_mean_witness:
  "calibrate_gyro_binary64
     (\<lambda>k. Vec3 (3602879701896397 / 36028797018963968) (3602879701896397 / 36028797018963968)
              (3602879701896397 / 36028797018963968)) 2 default_processor =
   Some (Inr (Vec3 (3602879701896397 / 36028797018963968) (3602879701896397 / 36028797018963968)
                   (3602879701896397 / 36028797018963968),
        default_processor\<lparr>gyro_offset :=
          Vec3 (3602879701896397 / 36028797018963968) (3602879701896397 / 36028797018963968)
               (3602879701896397 / 36028797018963968)\<rparr>))
   \<and> (\<exists>offset. calibrate_gyro_binary64
          (\<lambda>k. Vec3 (3602879701896397 / 36028797018963968) (3602879701896397 / 36028797018963968)
                   (3602879701896397 / 36028797018963968)) 3 default_processor =
          Some (Inr (offset, default_processor\<lparr>gyro_offset := offset\<rparr>))
        \<and> \<bar>vx offset - 3602879701896397 / 36028797018963968\<bar>
            \<le> mean_error_bound unit_roundoff underflow_unit 3 (3602879701896397 / 36028797018963968))
   \<and> calibrate_gyro (\<lambda>r. r) (\<lambda>k. Vec3 (1 / 10) (2 / 10) (3 / 10)) 3 default_processor =
       Inr (Vec3 (1 / 10) (2 / 10) (3 / 10),
            default_processor\<lparr>gyro_offset := Vec3 (1 / 10) (2 / 10) (3 / 10)\<rparr>)
   \<and> processor_update (Vec3 0 0 1) (Vec3 3 2 1) 10 10 10
        (default_processor\<lparr>gyro_offset := Vec3 1 1 1\<rparr>) =
       Inr (Some (19 / 2000, 19 / 1000),
            default_processor\<lparr>gyro_offset := Vec3 1 1 1, proc_last_update := 10,
              proc_filter := default_filter\<lparr>last_update := 10, dt := 1 / 100,
                pitch := 19 / 2000, roll := 19 / 1000\<rparr>\<rparr>)"
proof -
  let ?B = "3602879701896397 / 36028797018963968 :: real"
  have fixed: "round_binary64 (real k * ?B) = Some (real k * ?B)" if "k \<le> nat 2" for k
  proof -
    from that have "k = 0 \<or> k = 1 \<or> k = 2" by auto
    then show ?thesis
      using round_binary64_zero round_binary64_tenth round_binary64_two_tenths by auto
  qed
  have h2: "1 \<le> (2::int) \<and> (2::int) \<le> 2 ^ 53
      \<and> (\<forall>k. k \<le> nat 2 \<longrightarrow>
            round_binary64 (real k * vx (Vec3 ?B ?B ?B)) = Some (real k * vx (Vec3 ?B ?B ?B))
            \<and> round_binary64 (real k * vy (Vec3 ?B ?B ?B)) = Some (real k * vy (Vec3 ?B ?B ?B))
            \<and> round_binary64 (real k * vz (Vec3 ?B ?B ?B)) = Some (real k * vz (Vec3 ?B ?B ?B)))"
    using fixed by simp
  have a: "calibrate_gyro_binary64 (\<lambda>k. Vec3 ?B ?B ?B) 2 default_processor =
      Some (Inr (Vec3 ?B ?B ?B, default_processor\<lparr>gyro_offset := Vec3 ?B ?B ?B\<rparr>))"
    by (rule calibrate_gyro_mean
        [THEN conjunct2, THEN conjunct2, THEN conjunct2, THEN conjunct2, THEN conjunct1,
          THEN mp, OF h2])
  have h3: "1 \<le> (3::int) \<and> (3::int) \<le> 2 ^ 52
      \<and> \<bar>vx (Vec3 ?B ?B ?B)\<bar> * real_of_int 3 \<le> 2 ^ 1000
      \<and> \<bar>vy (Vec3 ?B ?B ?B)\<bar> * real_of_int 3 \<le> 2 ^ 1000
      \<and> \<bar>vz (Vec3 ?B ?B ?B)\<bar> * real_of_int 3 \<le> 2 ^ 1000"
    by simp
  have b: "\<exists>offset. calibrate_gyro_binary64 (\<lambda>k. Vec3 ?B ?B ?B) 3 default_processor =
          Some (Inr (offset, default_processor\<lparr>gyro_offset := offset\<rparr>))
        \<and> \<bar>vx offset - ?B\<bar> \<le> mean_error_bound unit_roundoff underflow_unit 3 ?B"
    using calibrate_gyro_mean
      [THEN conjunct2, THEN conjunct2, THEN conjunct1, THEN mp, OF h3, of default_processor]
    by auto
  have i3: "1 \<le> (3::int)" by simp
  have c: "calibrate_gyro (\<lambda>r. r) (\<lambda>k. Vec3 (1 / 10) (2 / 10) (3 / 10)) 3 default_processor =
       Inr (Vec3 (1 / 10) (2 / 10) (3 / 10),
            default_processor\<lparr>gyro_offset := Vec3 (1 / 10) (2 / 10) (3 / 10)\<rparr>)"
    by (rule calibrate_gyro_mean [THEN conjunct2, THEN conjunct1, THEN mp, OF i3])
  let ?q = "default_processor\<lparr>gyro_offset := Vec3 1 1 1\<rparr>"
  have hq: "min_interval ?q \<le> ticks_diff 10 (proc_last_update ?q)"
    by (simp add: default_processor_def ticks_diff_def TICKS_PERIOD_def)
  have d: "processor_update (Vec3 0 0 1) (Vec3 3 2 1) 10 10 10 ?q =
       Inr (Some (19 / 2000, 19 / 1000),
            default_processor\<lparr>gyro_offset := Vec3 1 1 1, proc_last_update := 10,
              proc_filter := default_filter\<lparr>last_update := 10, dt := 1 / 100,
                pitch := 19 / 2000, roll := 19 / 1000\<rparr>\<rparr>)"
    using calibrate_gyro_mean
      [THEN conjunct2, THEN conjunct2, THEN conjunct2, THEN conjunct2, THEN conjunct2,
        THEN conjunct1, THEN mp, OF hq, of "Vec3 0 0 1" "Vec3 3 2 1" 10 10]
    by (simp add: default_processor_def default_filter_def ticks_diff_def TICKS_PERIOD_def
        filter_update_def get_accel_pitch_eq get_accel_roll_eq get_angles_def
        max_epsilon_one atan2_zero_one)
  show ?thesis using a b c d by blast
qed

subsection \<open>Exceptions\<close>

text \<open>
  Claim C7 reads: every core operation completes without raising on every input,
  \<^verbatim>\<open>calibrate_gyro\<close> with any non-negative sample count included. The code divides by
  the sample count and by the update rate: \<^verbatim>\<open>calibrate_gyro\<close> with 0 samples and the two
  constructors with rate 0 raise \<^verbatim>\<open>ZeroDivisionError\<close>. And the constructor of the filter
  does not look at the result of \<^verbatim>\<open>set_weights\<close>: built with the weight 2, the filter has
  no weights, and its \<^verbatim>\<open>update\<close> raises \<^verbatim>\<open>AttributeError\<close>.
\<close>

theorem zero_division_in_core:
  "calibrate_gyro (\<lambda>r. r) (\<lambda>k. Vec3 0 0 0) 0 default_processor = Inl ZeroDivisionError
   \<and> filter_init 0 (95 / 100) 0 = Inl ZeroDivisionError
   \<and> processor_init 0 0 0 = Inl ZeroDivisionError
   \<and> filter_init 100 2 0 = Inr (default_filter\<lparr>pitch_weight := None, roll_weight := None\<rparr>)
   \<and> filter_update (Vec3 0 0 1) (Vec3 0 0 0) None 10
         (default_filter\<lparr>pitch_weight := None, roll_weight := None\<rparr>) = Inl AttributeError"
  by (simp add: calibrate_gyro_def filter_init_def processor_init_def set_weights_def in_unit_def
      default_filter_def filter_update_def get_accel_pitch_eq get_accel_roll_eq)

text \<open>
  Claim C7, amended. With an update rate other than 0 the two constructors complete (the
  filter with its weights when the weight given is in [0, 1], the processor always with
  them); with a sample count other than 0 \<^verbatim>\<open>calibrate_gyro\<close> completes; and on a filter
  that has its weights, or a processor whose filter has them, \<^verbatim>\<open>update\<close>,
  \<^verbatim>\<open>set_weights\<close>, \<^verbatim>\<open>get_angles\<close>, \<^verbatim>\<open>reset\<close>, \<^verbatim>\<open>should_update\<close>,
  \<^verbatim>\<open>get_orientation\<close> and \<^verbatim>\<open>set_filter_weights\<close> complete and leave a state that has
  its weights again. The numbers are reals, so the overflow of a floating-point
  operation is not among the exceptions considered.
\<close>

theorem core_operations_complete:
  "(rate \<noteq> 0 \<longrightarrow> (\<exists>f0. filter_init rate w t0 = Inr f0 \<and> (if in_unit w then has_weights f0 else True)))
   \<and> (rate \<noteq> 0 \<longrightarrow> (\<exists>p0. processor_init rate t0 t1 = Inr p0 \<and> has_weights (proc_filter p0)))
   \<and> (has_weights f \<longrightarrow>
        (\<exists>angles f'. filter_update accel gyro dt_arg now f = Inr (angles, f') \<and> has_weights f')
        \<and> has_weights (snd (set_weights gw pw rw f))
        \<and> has_weights (snd (get_angles in_degrees f))
        \<and> has_weights (snd (reset now f)))
   \<and> (samples \<noteq> 0 \<longrightarrow>
        (\<exists>offset p'. calibrate_gyro fl read_gyro_func samples p = Inr (offset, p')
           \<and> proc_filter p' = proc_filter p))
   \<and> (has_weights (proc_filter p) \<longrightarrow>
        (\<exists>r p'. processor_update accel gyro now_gate now now_filter p = Inr (r, p')
           \<and> has_weights (proc_filter p'))
        \<and> has_weights (proc_filter (snd (set_filter_weights gw pw rw p)))
        \<and> has_weights (proc_filter (snd (get_orientation in_degrees p)))
        \<and> has_weights (proc_filter (snd (should_update now p))))"
proof -
  have finit: "rate \<noteq> 0 \<longrightarrow>
      (\<exists>f0. filter_init rate w t0 = Inr f0 \<and> (if in_unit w then has_weights f0 else True))"
    by (cases "in_unit w")
      (simp_all add: filter_init_def set_weights_def has_weights_def del: not_None_eq)
  have pinit: "rate \<noteq> 0 \<longrightarrow>
      (\<exists>p0. processor_init rate t0 t1 = Inr p0 \<and> has_weights (proc_filter p0))"
    by (simp add: processor_init_def filter_init_def set_weights_def in_unit_def has_weights_def
        del: not_None_eq)
  have sw: "has_weights g \<Longrightarrow> has_weights (snd (set_weights gw pw rw g))" for g
    by (cases gw; cases pw; cases rw) (auto simp: set_weights_def has_weights_def)
  have filt: "has_weights f \<longrightarrow>
        (\<exists>angles f'. filter_update accel gyro dt_arg now f = Inr (angles, f') \<and> has_weights f')
        \<and> has_weights (snd (set_weights gw pw rw f))
        \<and> has_weights (snd (get_angles in_degrees f))
        \<and> has_weights (snd (reset now f))"
    using filter_update_has_weights [of f accel gyro dt_arg now] sw [of f]
    by (auto simp: get_angles_def reset_def has_weights_def)
  have cal: "samples \<noteq> 0 \<longrightarrow>
        (\<exists>offset p'. calibrate_gyro fl read_gyro_func samples p = Inr (offset, p')
           \<and> proc_filter p' = proc_filter p)"
    by (simp add: calibrate_gyro_def Let_def)
  have upd: "\<exists>r p'. processor_update accel gyro now_gate now now_filter p = Inr (r, p')
           \<and> has_weights (proc_filter p')" if hw: "has_weights (proc_filter p)"
  proof (cases "ticks_diff now_gate (proc_last_update p) < min_interval p")
    case True
    then show ?thesis using hw by (simp add: processor_update_refused)
  next
    case False
    then have "min_interval p \<le> ticks_diff now_gate (proc_last_update p)" by simp
    from processor_update_accepted [OF this hw, of accel gyro now now_filter]
    show ?thesis by auto
  qed
  have proc: "has_weights (proc_filter p) \<longrightarrow>
        (\<exists>r p'. processor_update accel gyro now_gate now now_filter p = Inr (r, p')
           \<and> has_weights (proc_filter p'))
        \<and> has_weights (proc_filter (snd (set_filter_weights gw pw rw p)))
        \<and> has_weights (proc_filter (snd (get_orientation in_degrees p)))
        \<and> has_weights (proc_filter (snd (should_update now p)))"
    using upd sw [of "proc_filter p"]
    by (auto simp: set_filter_weights_def get_orientation_def get_angles_def should_update_def
        split: prod.splits)
  show ?thesis
    using finit pinit filt cal proc by blast
qed

theorem core_operations_complete_witness:
  "(\<exists>f0. filter_init 100 (95 / 100) 0 = Inr f0 \<and> has_weights f0)
   \<and> (\<exists>p0. processor_init 100 0 0 = Inr p0 \<and> has_weights (proc_filter p0))
   \<and> (\<exists>angles f'. filter_update (Vec3 0 0 0) (Vec3 0 0 0) None 10 default_filter = Inr (angles, f'))
   \<and> (\<exists>offset p'. calibrate_gyro (\<lambda>r. r) (\<lambda>k. Vec3 0 0 0) 1 default_processor = Inr (offset, p'))
   \<and> (\<exists>r p'. processor_update (Vec3 0 0 0) (Vec3 0 0 0) 10 10 10 default_processor = Inr (r, p'))"
  using core_operations_complete
    [where rate = 100 and w = "95 / 100" and ?t0.0 = 0 and ?t1.0 = 0 and f = default_filter
      and accel = "Vec3 0 0 0" and gyro = "Vec3 0 0 0" and dt_arg = None and now = 10
      and samples = 1 and fl = "\<lambda>r. r" and read_gyro_func = "\<lambda>k. Vec3 0 0 0"
      and p = default_processor and now_gate = 10 and now_filter = 10
      and gw = None and pw = None and rw = None and in_degrees = False]
    default_processor_facts
  by (simp add: in_unit_def default_filter_has_weights; blast)

end
